theory Spec2Isabelle
  imports Complex_Main "HOL-Library.Sublist" "HOL-Library.AList"
begin

section \<open>JavaScript values used by ExpenseScreen.js\<close>

text \<open>
  The model follows ExpenseScreen.js: the handlers addExpense, deleteExpense and
  handleSaveEdit over the expenses table, the date helpers isSameMonth and isSameWeek,
  the memoised values filteredExpenses, totalSpending and totalsByCategory, and
  getChartData, whose result is all that ExpensesChart.js receives. What the language
  and the store do for them (numbers, strings, Date, plain objects, SQL statements) is
  modelled first, as far as these functions use it.

  A JavaScript number is NaN, an infinity or a finite value. Finite values are kept as
  exact rationals: IEEE-754 rounding, overflow of a finite result to an infinity,
  underflow to zero and the sign of zero are not modelled. Strings are lists of 8-bit
  characters, read as code units below 256.
\<close>

datatype jsnum = NaN | NegInf | Fin rat | PosInf

fun js_add :: "jsnum \<Rightarrow> jsnum \<Rightarrow> jsnum" where
  "js_add NaN _ = NaN"
| "js_add _ NaN = NaN"
| "js_add PosInf NegInf = NaN"
| "js_add NegInf PosInf = NaN"
| "js_add PosInf _ = PosInf"
| "js_add _ PosInf = PosInf"
| "js_add NegInf _ = NegInf"
| "js_add _ NegInf = NegInf"
| "js_add (Fin a) (Fin b) = Fin (a + b)"

fun js_neg :: "jsnum \<Rightarrow> jsnum" where
  "js_neg NaN = NaN"
| "js_neg NegInf = PosInf"
| "js_neg PosInf = NegInf"
| "js_neg (Fin a) = Fin (- a)"

text \<open>The comparison \<^verbatim>\<open>a <= b\<close> on numbers: false whenever an operand is NaN.\<close>

fun js_le :: "jsnum \<Rightarrow> jsnum \<Rightarrow> bool" where
  "js_le NaN _ = False"
| "js_le _ NaN = False"
| "js_le NegInf _ = True"
| "js_le _ PosInf = True"
| "js_le PosInf _ = False"
| "js_le _ NegInf = False"
| "js_le (Fin a) (Fin b) = (a \<le> b)"

definition isNaN :: "jsnum \<Rightarrow> bool" where
  "isNaN n = (n = NaN)"

text \<open>ToBoolean on a number: NaN and zero are falsy.\<close>

definition num_truthy :: "jsnum \<Rightarrow> bool" where
  "num_truthy n = (n \<noteq> NaN \<and> n \<noteq> Fin 0)"

subsection \<open>Strings: trim and parseFloat\<close>

text \<open>
  White space and line terminators among the code units below 256: TAB, LF, VT, FF, CR,
  SP and NBSP.
\<close>

definition is_js_space :: "char \<Rightarrow> bool" where
  "is_js_space c = (of_char c \<in> set [9, 10, 11, 12, 13, 32, 160 :: nat])"

definition trimStart :: "string \<Rightarrow> string" where
  "trimStart s = dropWhile is_js_space s"

definition trim :: "string \<Rightarrow> string" where
  "trim s = rev (trimStart (rev (trimStart s)))"

definition is_digit :: "char \<Rightarrow> bool" where
  "is_digit c = (c \<in> set ''0123456789'')"

definition digit_val :: "char \<Rightarrow> nat" where
  "digit_val c = of_char c - 48"

definition digits_val :: "string \<Rightarrow> nat" where
  "digits_val ds = foldl (\<lambda>n c. 10 * n + digit_val c) 0 ds"

definition pow10 :: "int \<Rightarrow> rat" where
  "pow10 e = (if 0 \<le> e then 10 ^ nat e else 1 / 10 ^ nat (- e))"

text \<open>
  The value of an ExponentPart at the head of \<open>r\<close> (\<^verbatim>\<open>e\<close> or \<^verbatim>\<open>E\<close>, an optional
  sign, digits); 0 when \<open>r\<close> does not start with one, so that the literal ends before it.
\<close>

definition exponent_part :: "string \<Rightarrow> int" where
  "exponent_part r =
     (case r of
        [] \<Rightarrow> 0
      | c # r1 \<Rightarrow>
          if c = CHR ''e'' \<or> c = CHR ''E'' then
            (case r1 of
               [] \<Rightarrow> 0
             | s # r2 \<Rightarrow>
                 if s = CHR ''-'' then - int (digits_val (takeWhile is_digit r2))
                 else if s = CHR ''+'' then int (digits_val (takeWhile is_digit r2))
                 else int (digits_val (takeWhile is_digit r1)))
          else 0)"

text \<open>
  The longest prefix of \<open>r\<close> that is a StrUnsignedDecimalLiteral (\<^verbatim>\<open>Infinity\<close>, or digits
  with an optional fraction and exponent), as a number; NaN when no prefix is one.
\<close>

definition str_unsigned_decimal :: "string \<Rightarrow> jsnum" where
  "str_unsigned_decimal r =
     (if take 8 r = ''Infinity'' then PosInf
      else
        let ip = takeWhile is_digit r;
            r1 = dropWhile is_digit r;
            fp = (case r1 of [] \<Rightarrow> [] | c # r2 \<Rightarrow> if c = CHR ''.'' then takeWhile is_digit r2 else []);
            r3 = (case r1 of [] \<Rightarrow> [] | c # r2 \<Rightarrow> if c = CHR ''.'' then dropWhile is_digit r2 else r1)
        in if ip = [] \<and> fp = [] then NaN
           else Fin (of_nat (digits_val (ip @ fp)) / 10 ^ length fp * pow10 (exponent_part r3)))"

definition parseFloat :: "string \<Rightarrow> jsnum" where
  "parseFloat s =
     (case trimStart s of
        [] \<Rightarrow> NaN
      | c # r \<Rightarrow>
          if c = CHR ''+'' then str_unsigned_decimal r
          else if c = CHR ''-'' then js_neg (str_unsigned_decimal r)
          else str_unsigned_decimal (c # r))"

section \<open>Dates\<close>

text \<open>
  A Date object holds a time value: milliseconds since 1970-01-01T00:00:00Z, or NaN (an
  Invalid Date, here \<open>None\<close>). The functions below are the abstract operations of the
  language standard on time values, named as there. The local time zone is a fixed offset
  \<open>tz\<close> in minutes east of UTC; daylight saving changes are not modelled.
\<close>

definition msPerDay :: int where
  "msPerDay = 86400000"

definition Day :: "int \<Rightarrow> int" where
  "Day t = t div msPerDay"

definition WeekDay :: "int \<Rightarrow> int" where
  "WeekDay t = (Day t + 4) mod 7"

definition LocalTime :: "int \<Rightarrow> int \<Rightarrow> int" where
  "LocalTime tz t = t + tz * 60000"

definition UTC :: "int \<Rightarrow> int \<Rightarrow> int" where
  "UTC tz t = t - tz * 60000"

text \<open>
  The proleptic Gregorian calendar. \<open>civil n\<close> is the (year, month 1..12, day of month)
  of day number \<open>n\<close> (day 0 is 1970-01-01), computed on years that start on 1 March:
  400-year, 100-year, 4-year and 1-year blocks, then the month from the day of the year.
  \<open>days_from_civil\<close> is the way back.
\<close>

definition civil :: "int \<Rightarrow> int \<times> int \<times> int" where
  "civil n =
     (let z = n + 719468;
          era = z div 146097;
          doe = z mod 146097;
          c = min (doe div 36524) 3;
          r1 = doe - c * 36524;
          q = r1 div 1461;
          r2 = r1 mod 1461;
          a = min (r2 div 365) 3;
          doy = r2 - a * 365;
          mp = (5 * doy + 2) div 153;
          d = doy - (153 * mp + 2) div 5 + 1;
          m = (if mp < 10 then mp + 3 else mp - 9);
          y = 400 * era + 100 * c + 4 * q + a + (if m \<le> 2 then 1 else 0)
      in (y, m, d))"

definition days_from_civil :: "int \<Rightarrow> int \<Rightarrow> int \<Rightarrow> int" where
  "days_from_civil y m d =
     (let y' = (if m \<le> 2 then y - 1 else y);
          mp = (m + 9) mod 12;
          doy = (153 * mp + 2) div 5 + d - 1
      in 365 * y' + y' div 4 - y' div 100 + y' div 400 + doy - 719468)"

definition YearFromTime :: "int \<Rightarrow> int" where
  "YearFromTime t = fst (civil (Day t))"

text \<open>Months are numbered from 0 (January) by the standard.\<close>

definition MonthFromTime :: "int \<Rightarrow> int" where
  "MonthFromTime t = fst (snd (civil (Day t))) - 1"

definition DateFromTime :: "int \<Rightarrow> int" where
  "DateFromTime t = snd (snd (civil (Day t)))"

definition MakeDay :: "int \<Rightarrow> int \<Rightarrow> int \<Rightarrow> int" where
  "MakeDay year month dt = days_from_civil (year + month div 12) (month mod 12 + 1) 1 + dt - 1"

definition DaysInMonth :: "int \<Rightarrow> int \<Rightarrow> int" where
  "DaysInMonth y m = MakeDay y m 1 - MakeDay y (m - 1) 1"

subsection \<open>Formatting and parsing\<close>

definition digit_char :: "nat \<Rightarrow> char" where
  "digit_char n = ''0123456789'' ! n"

function show_nat :: "nat \<Rightarrow> string" where
  "show_nat n = (if n < 10 then [digit_char n] else show_nat (n div 10) @ [digit_char (n mod 10)])"
  by pat_completeness auto
termination
  by (relation "measure (\<lambda>n. n)") auto

declare show_nat.simps [simp del]

text \<open>ToZeroPaddedDecimalString: at least \<open>w\<close> digits.\<close>

definition zero_padded :: "nat \<Rightarrow> nat \<Rightarrow> string" where
  "zero_padded w n = replicate (w - length (show_nat n)) CHR ''0'' @ show_nat n"

text \<open>
  \<^verbatim>\<open>Date.prototype.toISOString\<close>: the UTC fields as \<^verbatim>\<open>YYYY-MM-DDTHH:mm:ss.sssZ\<close>, the year
  with a sign and six digits outside 0..9999.
\<close>

definition iso_year :: "int \<Rightarrow> string" where
  "iso_year y =
     (if 0 \<le> y \<and> y \<le> 9999 then zero_padded 4 (nat y)
      else (if 0 \<le> y then ''+'' else ''-'') @ zero_padded 6 (nat \<bar>y\<bar>))"

definition toISOString :: "int \<Rightarrow> string" where
  "toISOString t =
     iso_year (YearFromTime t) @ ''-'' @ zero_padded 2 (nat (MonthFromTime t + 1)) @ ''-'' @
     zero_padded 2 (nat (DateFromTime t)) @ ''T'' @
     zero_padded 2 (nat (t mod msPerDay div 3600000)) @ '':'' @
     zero_padded 2 (nat (t mod 3600000 div 60000)) @ '':'' @
     zero_padded 2 (nat (t mod 60000 div 1000)) @ ''.'' @
     zero_padded 3 (nat (t mod 1000)) @ ''Z''"

text \<open>\<^verbatim>\<open>String.prototype.slice(0, n)\<close> for a non-negative \<open>n\<close>.\<close>

definition slice0 :: "nat \<Rightarrow> string \<Rightarrow> string" where
  "slice0 n s = take n s"

text \<open>
  \<^verbatim>\<open>new Date(dateStr)\<close> for the date-only form \<^verbatim>\<open>YYYY-MM-DD\<close>, the form addExpense
  stores: the standard reads a date-only string as UTC midnight of that day. A string of
  that shape with a month or day out of range, and a string of any other shape, is
  modelled as an Invalid Date.
\<close>

definition date_only_parse :: "string \<Rightarrow> int option" where
  "date_only_parse s =
     (if length s = 10 \<and> s ! 4 = CHR ''-'' \<and> s ! 7 = CHR ''-'' \<and>
         list_all is_digit (take 4 s) \<and> list_all is_digit (take 2 (drop 5 s)) \<and>
         list_all is_digit (drop 8 s)
      then
        let y = int (digits_val (take 4 s));
            m = int (digits_val (take 2 (drop 5 s)));
            d = int (digits_val (drop 8 s))
        in if 1 \<le> m \<and> m \<le> 12 \<and> 1 \<le> d \<and> d \<le> DaysInMonth y m
           then Some (MakeDay y (m - 1) d * msPerDay) else None
      else None)"

text \<open>
  \<^verbatim>\<open>new Date(year, monthIndex, day)\<close>: local midnight of that day; a year 0..99 means
  1900 + year, and a day outside the month rolls over.
\<close>

definition date_from_fields :: "int \<Rightarrow> int \<Rightarrow> int \<Rightarrow> int \<Rightarrow> int" where
  "date_from_fields tz year month dt =
     UTC tz (MakeDay (if 0 \<le> year \<and> year \<le> 99 then 1900 + year else year) month dt * msPerDay)"

definition day_name :: "int \<Rightarrow> string" where
  "day_name w = [''Sun'', ''Mon'', ''Tue'', ''Wed'', ''Thu'', ''Fri'', ''Sat''] ! nat w"

definition month_name :: "int \<Rightarrow> string" where
  "month_name m =
     [''Jan'', ''Feb'', ''Mar'', ''Apr'', ''May'', ''Jun'',
      ''Jul'', ''Aug'', ''Sep'', ''Oct'', ''Nov'', ''Dec''] ! nat m"

text \<open>\<^verbatim>\<open>Date.prototype.toDateString\<close>: the local date, as in \<^verbatim>\<open>Mon Jun 03 2024\<close>.\<close>

definition toDateString :: "int \<Rightarrow> int option \<Rightarrow> string" where
  "toDateString tz dt =
     (case dt of
        None \<Rightarrow> ''Invalid Date''
      | Some t \<Rightarrow>
          let lt = LocalTime tz t; y = YearFromTime lt
          in day_name (WeekDay lt) @ '' '' @ month_name (MonthFromTime lt) @ '' '' @
             zero_padded 2 (nat (DateFromTime lt)) @ '' '' @
             (if 0 \<le> y then [] else ''-'') @ zero_padded 4 (nat \<bar>y\<bar>))"

section \<open>The expenses table\<close>

text \<open>
  A row of the table created by
  \<^verbatim>\<open>CREATE TABLE IF NOT EXISTS expenses (id INTEGER PRIMARY KEY AUTOINCREMENT,
  amount REAL NOT NULL, category TEXT NOT NULL, note TEXT, date TEXT NOT NULL)\<close>.
  The screen binds only numbers to \<open>amount\<close> and only strings to the text columns.
\<close>

record expense =
  ident :: int
  amount :: jsnum
  category :: string
  note_text :: string
  date :: string

datatype statement = CreateTable | SelectAll | InsertRow | UpdateRow | DeleteRow

datatype error = NotNullConstraint

text \<open>
  The store: the rows in insertion order, the largest id AUTOINCREMENT has handed out,
  and the statements that have been executed. The store is taken to be reachable; the
  one failure modelled is the NOT NULL constraint on \<open>amount\<close>, which a bound NaN
  violates (the engine stores a NaN as NULL).
\<close>

record database =
  table_rows :: "expense list"
  sequence :: int
  executed :: "statement list"

definition next_rowid :: "database \<Rightarrow> int" where
  "next_rowid d = fold max (map ident (table_rows d)) (sequence d) + 1"

text \<open>\<^verbatim>\<open>INSERT INTO expenses (amount, category, note, date) VALUES (?, ?, ?, ?)\<close>\<close>

definition insert_expense :: "database \<Rightarrow> jsnum \<Rightarrow> string \<Rightarrow> string \<Rightarrow> string \<Rightarrow> error + database" where
  "insert_expense d a c n dt =
     (if a = NaN then Inl NotNullConstraint
      else
        Inr (d\<lparr>table_rows := table_rows d @
                 [\<lparr>ident = next_rowid d, amount = a, category = c, note_text = n, date = dt\<rparr>],
               sequence := next_rowid d,
               executed := executed d @ [InsertRow]\<rparr>))"

text \<open>\<^verbatim>\<open>UPDATE expenses SET amount = ?, category = ?, note = ?, date = ? WHERE id = ?\<close>\<close>

definition update_expense :: "database \<Rightarrow> jsnum \<Rightarrow> string \<Rightarrow> string \<Rightarrow> string \<Rightarrow> int \<Rightarrow> error + database" where
  "update_expense d a c n dt i =
     (if a = NaN then Inl NotNullConstraint
      else
        Inr (d\<lparr>table_rows :=
                 map (\<lambda>r. if ident r = i
                           then r\<lparr>amount := a, category := c, note_text := n, date := dt\<rparr>
                           else r)
                   (table_rows d),
               executed := executed d @ [UpdateRow]\<rparr>))"

text \<open>\<^verbatim>\<open>DELETE FROM expenses WHERE id = ?\<close>\<close>

definition delete_expense :: "database \<Rightarrow> int \<Rightarrow> database" where
  "delete_expense d i =
     d\<lparr>table_rows := filter (\<lambda>r. ident r \<noteq> i) (table_rows d),
       executed := executed d @ [DeleteRow]\<rparr>"

text \<open>\<^verbatim>\<open>SELECT * FROM expenses ORDER BY id DESC\<close>\<close>

definition select_all_desc :: "database \<Rightarrow> expense list \<times> database" where
  "select_all_desc d = (rev (sort_key ident (table_rows d)), d\<lparr>executed := executed d @ [SelectAll]\<rparr>)"

section \<open>ExpenseScreen: state and handlers\<close>

text \<open>
  The state hooks of the component, with the database handle. The text inputs
  \<^verbatim>\<open>amount\<close>, \<^verbatim>\<open>category\<close> and \<^verbatim>\<open>note\<close> carry the suffix \<open>_input\<close>, the filter
  selector is \<open>filter_mode\<close>.
\<close>

record screen_state =
  db :: database
  expenses :: "expense list"
  amount_input :: string
  category_input :: string
  note_input :: string
  filter_mode :: string
  editingExpense :: "expense option"

definition loadExpenses :: "screen_state \<Rightarrow> screen_state" where
  "loadExpenses st =
     (case select_all_desc (db st) of (rs, d) \<Rightarrow> st\<lparr>db := d, expenses := rs\<rparr>)"

text \<open>
  The effect run once after mounting (\<^verbatim>\<open>setup\<close> in the source):
  \<^verbatim>\<open>CREATE TABLE IF NOT EXISTS\<close>, which leaves an existing table as it is, then the
  first load.
\<close>

definition setup_effect :: "screen_state \<Rightarrow> screen_state" where
  "setup_effect st = loadExpenses (st\<lparr>db := (db st)\<lparr>executed := executed (db st) @ [CreateTable]\<rparr>\<rparr>)"

text \<open>
  addExpense at the instant \<open>now\<close> (the value of \<^verbatim>\<open>new Date()\<close>). Both early returns
  complete normally, as the source's bare \<^verbatim>\<open>return\<close> does; \<open>Inl\<close> is a rejected
  statement.
\<close>

definition addExpense :: "int \<Rightarrow> screen_state \<Rightarrow> error + screen_state" where
  "addExpense now st =
     (let amountNumber = parseFloat (amount_input st)
      in if isNaN amountNumber \<or> js_le amountNumber (Fin 0) then Inr st
         else
           let trimmedCategory = trim (category_input st);
               trimmedNote = trim (note_input st)
           in if trimmedCategory = [] then Inr st
              else
                let today = slice0 10 (toISOString now)
                in case insert_expense (db st) amountNumber trimmedCategory trimmedNote today of
                     Inl e \<Rightarrow> Inl e
                   | Inr d \<Rightarrow>
                       Inr (loadExpenses
                             (st\<lparr>db := d, amount_input := [], category_input := [],
                                 note_input := []\<rparr>)))"

definition deleteExpense :: "int \<Rightarrow> screen_state \<Rightarrow> screen_state" where
  "deleteExpense i st = loadExpenses (st\<lparr>db := delete_expense (db st) i\<rparr>)"

text \<open>\<^verbatim>\<open>s || ''\<close> on a string.\<close>

definition or_empty :: "string \<Rightarrow> string" where
  "or_empty s = (if s = [] then [] else s)"

definition handleSaveEdit :: "screen_state \<Rightarrow> error + screen_state" where
  "handleSaveEdit st =
     (case editingExpense st of
        None \<Rightarrow> Inr st
      | Some e \<Rightarrow>
          (case update_expense (db st) (amount e) (category e) (or_empty (note_text e)) (date e)
                  (ident e) of
             Inl err \<Rightarrow> Inl err
           | Inr d \<Rightarrow> Inr ((loadExpenses (st\<lparr>db := d\<rparr>))\<lparr>editingExpense := None\<rparr>)))"

section \<open>Date helpers for the filters\<close>

definition getFullYear :: "int \<Rightarrow> int \<Rightarrow> int" where
  "getFullYear tz t = YearFromTime (LocalTime tz t)"

definition getMonth :: "int \<Rightarrow> int \<Rightarrow> int" where
  "getMonth tz t = MonthFromTime (LocalTime tz t)"

definition getDate :: "int \<Rightarrow> int \<Rightarrow> int" where
  "getDate tz t = DateFromTime (LocalTime tz t)"

definition getDay :: "int \<Rightarrow> int \<Rightarrow> int" where
  "getDay tz t = WeekDay (LocalTime tz t)"

text \<open>
  The getters of an Invalid Date return NaN, and \<^verbatim>\<open>NaN === x\<close> is false, so an invalid
  \<open>d\<close> is in no month.
\<close>

definition isSameMonth :: "int \<Rightarrow> int \<Rightarrow> string \<Rightarrow> bool" where
  "isSameMonth tz now dateStr =
     (case date_only_parse dateStr of
        None \<Rightarrow> False
      | Some d \<Rightarrow> getFullYear tz d = getFullYear tz now \<and> getMonth tz d = getMonth tz now)"

definition getWeekStart :: "int \<Rightarrow> int option \<Rightarrow> int option" where
  "getWeekStart tz dt =
     (case dt of
        None \<Rightarrow> None
      | Some t \<Rightarrow>
          let day = getDay tz t;
              diff = getDate tz t - day + (if day = 0 then - 6 else 1)
          in Some (date_from_fields tz (getFullYear tz t) (getMonth tz t) diff))"

definition isSameWeek :: "int \<Rightarrow> int \<Rightarrow> string \<Rightarrow> bool" where
  "isSameWeek tz now dateStr =
     (toDateString tz (getWeekStart tz (date_only_parse dateStr)) =
      toDateString tz (getWeekStart tz (Some now)))"

section \<open>Filtering and totals\<close>

definition filteredExpenses :: "int \<Rightarrow> int \<Rightarrow> string \<Rightarrow> expense list \<Rightarrow> expense list" where
  "filteredExpenses tz now mode es =
     (if mode = ''ALL'' then es
      else if mode = ''WEEK'' then filter (\<lambda>e. isSameWeek tz now (date e)) es
      else if mode = ''MONTH'' then filter (\<lambda>e. isSameMonth tz now (date e)) es
      else es)"

definition totalSpending :: "expense list \<Rightarrow> jsnum" where
  "totalSpending es = foldl (\<lambda>sum e. js_add sum (amount e)) (Fin 0) es"

subsection \<open>Plain objects used as maps\<close>

text \<open>
  What a property of the object literal \<^verbatim>\<open>{}\<close> can hold here: nothing, a number, a
  function or object inherited from \<^verbatim>\<open>Object.prototype\<close>, or the string that \<^verbatim>\<open>+\<close>
  makes of one of those and a number (its characters are not modelled; it is never empty).
\<close>

datatype jsval = Undefined | Number jsnum | Inherited | Text

text \<open>The own properties, in the order they were created.\<close>

type_synonym js_object = "(string \<times> jsval) list"

definition object_prototype_names :: "string list" where
  "object_prototype_names =
     [''constructor'', ''__defineGetter__'', ''__defineSetter__'', ''hasOwnProperty'',
      ''__lookupGetter__'', ''__lookupSetter__'', ''isPrototypeOf'', ''propertyIsEnumerable'',
      ''toString'', ''valueOf'', ''__proto__'', ''toLocaleString'']"

definition obj_get :: "js_object \<Rightarrow> string \<Rightarrow> jsval" where
  "obj_get m k =
     (case map_of m k of
        Some v \<Rightarrow> v
      | None \<Rightarrow> if k \<in> set object_prototype_names then Inherited else Undefined)"

text \<open>
  Assignment \<^verbatim>\<open>m[k] = v\<close> of a number or string: \<^verbatim>\<open>__proto__\<close> is an accessor whose
  setter ignores a value that is not an object; any other key becomes, or stays, an own
  property.
\<close>

definition obj_set :: "js_object \<Rightarrow> string \<Rightarrow> jsval \<Rightarrow> js_object" where
  "obj_set m k v = (if k = ''__proto__'' then m else AList.update k v m)"

definition truthy :: "jsval \<Rightarrow> bool" where
  "truthy v = (case v of Undefined \<Rightarrow> False | Number n \<Rightarrow> num_truthy n | Inherited \<Rightarrow> True | Text \<Rightarrow> True)"

text \<open>\<^verbatim>\<open>v + a\<close> for a number \<open>a\<close>: addition on numbers, concatenation otherwise.\<close>

definition js_plus :: "jsval \<Rightarrow> jsnum \<Rightarrow> jsval" where
  "js_plus v a = (case v of Undefined \<Rightarrow> Number NaN | Number n \<Rightarrow> Number (js_add n a) | Inherited \<Rightarrow> Text | Text \<Rightarrow> Text)"

text \<open>
  An array index is a canonical numeric string below \<open>2^32 - 1\<close>. Own keys are listed
  with the array indices first, in ascending numeric order, then the other strings in
  creation order.
\<close>

definition is_array_index :: "string \<Rightarrow> bool" where
  "is_array_index k =
     (k \<noteq> [] \<and> list_all is_digit k \<and> (length k = 1 \<or> hd k \<noteq> CHR ''0'') \<and>
      int (digits_val k) \<le> 4294967294)"

definition Object_keys :: "js_object \<Rightarrow> string list" where
  "Object_keys m =
     sort_key digits_val (filter is_array_index (map fst m)) @
     filter (\<lambda>k. \<not> is_array_index k) (map fst m)"

definition Object_values :: "js_object \<Rightarrow> jsval list" where
  "Object_values m = map (obj_get m) (Object_keys m)"

text \<open>
  The body shared by both loops:
  \<^verbatim>\<open>if (!map[c]) map[c] = 0; map[c] += a;\<close>
\<close>

definition add_to_category :: "js_object \<Rightarrow> string \<Rightarrow> jsnum \<Rightarrow> js_object" where
  "add_to_category m c a =
     (let m1 = (if truthy (obj_get m c) then m else obj_set m c (Number (Fin 0)))
      in obj_set m1 c (js_plus (obj_get m1 c) a))"

definition totalsByCategory :: "expense list \<Rightarrow> js_object" where
  "totalsByCategory es = foldl (\<lambda>m e. add_to_category m (category e) (amount e)) [] es"

text \<open>
  getChartData: \<^verbatim>\<open>expense.category || 'Other'\<close> and \<^verbatim>\<open>Number(expense.amount) || 0\<close>
  (\<^verbatim>\<open>Number\<close> is the identity on a number), then the same loop; the result is the pair
  of \<^verbatim>\<open>labels\<close> and \<^verbatim>\<open>values\<close>.
\<close>

definition chart_category :: "expense \<Rightarrow> string" where
  "chart_category e = (if category e = [] then ''Other'' else category e)"

definition chart_amount :: "expense \<Rightarrow> jsnum" where
  "chart_amount e = (if num_truthy (amount e) then amount e else Fin 0)"

definition chart_totals :: "expense list \<Rightarrow> js_object" where
  "chart_totals es = foldl (\<lambda>m e. add_to_category m (chart_category e) (chart_amount e)) [] es"

definition getChartData :: "expense list \<Rightarrow> string list \<times> jsval list" where
  "getChartData es = (Object_keys (chart_totals es), Object_values (chart_totals es))"

subsection \<open>Notions of the specification\<close>

text \<open>
  First-occurrence order, as the specification words it: the distinct elements of a list,
  each at the place where it first occurs.
\<close>

primrec first_occurrences :: "'a list \<Rightarrow> 'a list" where
  "first_occurrences [] = []"
| "first_occurrences (x # xs) = x # filter (\<lambda>y. y \<noteq> x) (first_occurrences xs)"

text \<open>
  The relabelling, as the specification words it: a record whose category is empty is
  attributed to the literal label \<^verbatim>\<open>Other\<close>, and every other record is left as it
  is. It is written from those words alone, without reference to getChartData.
\<close>

definition labelled_other :: "expense \<Rightarrow> expense" where
  "labelled_other e = (if category e = [] then e\<lparr>category := ''Other''\<rparr> else e)"

text \<open>
  Finite numbers, for the sums of the specification: \<open>isFinite\<close> on a number,
  \<open>is_finite_number\<close> on a property value, and the rational a finite number stands for.
\<close>

definition isFinite :: "jsnum \<Rightarrow> bool" where
  "isFinite n = (case n of Fin q \<Rightarrow> True | NaN \<Rightarrow> False | NegInf \<Rightarrow> False | PosInf \<Rightarrow> False)"

definition rational_of :: "jsnum \<Rightarrow> rat" where
  "rational_of n = (case n of Fin q \<Rightarrow> q | NaN \<Rightarrow> 0 | NegInf \<Rightarrow> 0 | PosInf \<Rightarrow> 0)"

definition is_finite_number :: "jsval \<Rightarrow> bool" where
  "is_finite_number v =
     (case v of Number n \<Rightarrow> isFinite n | Undefined \<Rightarrow> False | Inherited \<Rightarrow> False | Text \<Rightarrow> False)"

definition number_of :: "jsval \<Rightarrow> rat" where
  "number_of v =
     (case v of Number n \<Rightarrow> rational_of n | Undefined \<Rightarrow> 0 | Inherited \<Rightarrow> 0 | Text \<Rightarrow> 0)"

section \<open>Sample inputs\<close>

text \<open>An empty store, and the screen over it with the three text inputs filled in.\<close>

definition db0 :: database where
  "db0 = \<lparr>table_rows = [], sequence = 0, executed = []\<rparr>"

definition form :: "string \<Rightarrow> string \<Rightarrow> string \<Rightarrow> screen_state" where
  "form a c n =
     \<lparr>db = db0, expenses = [], amount_input = a, category_input = c, note_input = n,
      filter_mode = ''ALL'', editingExpense = None\<rparr>"

text \<open>A row with the given id, amount, category and date, and an empty note.\<close>

definition row :: "int \<Rightarrow> jsnum \<Rightarrow> string \<Rightarrow> string \<Rightarrow> expense" where
  "row i a c d = \<lparr>ident = i, amount = a, category = c, note_text = [], date = d\<rparr>"

text \<open>
  The instant 2024-06-05T13:00:00.123Z, and the offset in minutes of a zone five hours
  west of UTC, where that instant is 08:00 on Wednesday 5 June.
\<close>

definition june5 :: int where
  "june5 = 1717592400123"

definition utc_minus_5 :: int where
  "utc_minus_5 = - 300"

text \<open>
  A screen over a store of three rows, inserted in the order of their ids, before the
  first load.
\<close>

definition stocked :: screen_state where
  "stocked =
     \<lparr>db = \<lparr>table_rows =
               [row 1 (Fin 10) ''Food'' ''2024-06-03'',
                row 2 (Fin 5) ''Food'' ''2023-01-09'',
                row 3 (Fin 20) ''Books'' ''2024-06-09''],
             sequence = 3, executed = []\<rparr>,
      expenses = [], amount_input = [], category_input = [], note_input = [],
      filter_mode = ''WEEK'', editingExpense = None\<rparr>"

text \<open>
  The instant 2024-07-01T01:00:00Z: five hours west of UTC it is 20:00 on Sunday 30 June.
\<close>

definition july1_0100z :: int where
  "july1_0100z = 1719795600000"

text \<open>The three-row screen after its first load, with \<open>e\<close> in the edit panel.\<close>

definition editing :: "expense \<Rightarrow> screen_state" where
  "editing e = (loadExpenses stocked)\<lparr>editingExpense := Some e\<rparr>"

text \<open>
  Records for the totals: two categories; an empty category; a category that is an array
  index.
\<close>

definition two_categories :: "expense list" where
  "two_categories =
     [row 3 (Fin 10) ''Food'' ''2024-06-03'', row 2 (Fin 20) ''Books'' ''2024-06-03'',
      row 1 (Fin 5) ''Food'' ''2024-06-03'']"




text \<open>Records whose category is the name of a property of \<^verbatim>\<open>Object.prototype\<close>.\<close>

definition under_proto :: "expense list" where
  "under_proto = [row 1 (Fin 5) ''__proto__'' ''2024-06-03'']"

definition under_constructor :: "expense list" where
  "under_constructor =
     [row 2 (Fin 5) ''constructor'' ''2024-06-03'', row 1 (Fin 7) ''constructor'' ''2024-06-03'']"

section \<open>Auxiliary facts\<close>

subsection \<open>Calendar arithmetic\<close>

lemma div_bounds:
  fixes x k :: int
  assumes "0 < k"
  shows "k * (x div k) \<le> x" "x < k * (x div k) + k"
proof -
  have "x = k * (x div k) + x mod k" by simp
  moreover have "0 \<le> x mod k" "x mod k < k" using assms by simp_all
  ultimately show "k * (x div k) \<le> x" "x < k * (x div k) + k" by linarith+
qed

lemma doy_bounds:
  fixes r :: int
  assumes "0 \<le> r" "r \<le> 1460"
  shows "0 \<le> r - min (r div 365) 3 * 365 \<and> r - min (r div 365) 3 * 365 \<le> 365"
proof -
  define q where "q = r div 365"
  have "365 * q \<le> r" "r < 365 * q + 365"
    unfolding q_def by (rule div_bounds, simp)+
  then show ?thesis using assms unfolding q_def[symmetric] min_def by auto
qed

lemma month_day_bounds:
  fixes doy :: int
  assumes "0 \<le> doy" "doy \<le> 365"
  shows "0 \<le> (5 * doy + 2) div 153 \<and> (5 * doy + 2) div 153 \<le> 11 \<and>
         1 \<le> doy - (153 * ((5 * doy + 2) div 153) + 2) div 5 + 1 \<and>
         doy - (153 * ((5 * doy + 2) div 153) + 2) div 5 + 1 \<le> 31"
proof -
  define mp where "mp = (5 * doy + 2) div 153"
  define k where "k = (153 * mp + 2) div 5"
  have mp: "153 * mp \<le> 5 * doy + 2" "5 * doy + 2 < 153 * mp + 153"
    unfolding mp_def by (rule div_bounds, simp)+
  have k: "5 * k \<le> 153 * mp + 2" "153 * mp + 2 < 5 * k + 5"
    unfolding k_def by (rule div_bounds, simp)+
  show ?thesis
    unfolding mp_def[symmetric] k_def[symmetric] using mp k assms by linarith
qed

text \<open>Every day number has a month between 1 and 12 and a day between 1 and 31.\<close>

lemma civil_month_day:
  assumes "civil n = (y, m, d)"
  shows "1 \<le> m \<and> m \<le> 12 \<and> 1 \<le> d \<and> d \<le> 31"
proof -
  define r1 where
    "r1 = (n + 719468) mod 146097 - min ((n + 719468) mod 146097 div 36524) 3 * 36524"
  define r2 where "r2 = r1 mod 1461"
  define doy where "doy = r2 - min (r2 div 365) 3 * 365"
  define mp where "mp = (5 * doy + 2) div 153"
  have r2: "0 \<le> r2" "r2 \<le> 1460" by (simp_all add: r2_def)
  have doy: "0 \<le> doy" "doy \<le> 365" using doy_bounds[OF r2] by (simp_all add: doy_def)
  note b = month_day_bounds[OF doy, folded mp_def]
  have "civil n =
      (400 * ((n + 719468) div 146097) + 100 * min ((n + 719468) mod 146097 div 36524) 3 +
       4 * (r1 div 1461) + min (r2 div 365) 3 +
       (if (if mp < 10 then mp + 3 else mp - 9) \<le> 2 then 1 else 0),
       (if mp < 10 then mp + 3 else mp - 9),
       doy - (153 * mp + 2) div 5 + 1)"
    unfolding civil_def Let_def mp_def doy_def r2_def r1_def ..
  with assms have m: "m = (if mp < 10 then mp + 3 else mp - 9)"
    and d: "d = doy - (153 * mp + 2) div 5 + 1"
    by simp_all
  show ?thesis using b unfolding m d by (simp split: if_splits)
qed

lemma MonthFromTime_bounds: "0 \<le> MonthFromTime t \<and> MonthFromTime t \<le> 11"
  using civil_month_day[of "Day t" "fst (civil (Day t))" "fst (snd (civil (Day t)))"
      "snd (snd (civil (Day t)))"]
  by (simp add: MonthFromTime_def)

lemma DateFromTime_bounds: "1 \<le> DateFromTime t \<and> DateFromTime t \<le> 31"
  using civil_month_day[of "Day t" "fst (civil (Day t))" "fst (snd (civil (Day t)))"
      "snd (snd (civil (Day t)))"]
  by (simp add: DateFromTime_def)

text \<open>
  The blocks \<open>civil\<close> splits a day number into: at most three whole centuries, twenty-four
  whole four-year spans and three whole years, before the day of the year.
\<close>

lemma civil_parts:
  fixes n :: int
  defines "doe \<equiv> (n + 719468) mod 146097"
  defines "c \<equiv> min (doe div 36524) 3"
  defines "r1 \<equiv> doe - c * 36524"
  defines "q \<equiv> r1 div 1461"
  defines "r2 \<equiv> r1 mod 1461"
  defines "a \<equiv> min (r2 div 365) 3"
  shows "0 \<le> c \<and> c \<le> 3 \<and> 0 \<le> q \<and> q \<le> 24 \<and> 0 \<le> a \<and> a \<le> 3 \<and>
         r1 = 1461 * q + r2 \<and> 0 \<le> r2 \<and> r2 \<le> 1460"
proof -
  have doe: "0 \<le> doe" "doe \<le> 146096" by (simp_all add: doe_def)
  define k where "k = doe div 36524"
  have k: "36524 * k \<le> doe" "doe < 36524 * k + 36524"
    unfolding k_def by (rule div_bounds, simp)+
  have c: "0 \<le> c" "c \<le> 3" using doe k unfolding c_def k_def[symmetric] min_def by auto
  have r1: "0 \<le> r1" "r1 \<le> 36524"
    using doe k unfolding r1_def c_def k_def[symmetric] min_def by auto
  have q: "1461 * q \<le> r1" "r1 < 1461 * q + 1461"
    unfolding q_def by (rule div_bounds, simp)+
  have r2: "r1 = 1461 * q + r2" "0 \<le> r2" "r2 \<le> 1460"
    by (simp_all add: q_def r2_def)
  define j where "j = r2 div 365"
  have j: "365 * j \<le> r2" "r2 < 365 * j + 365"
    unfolding j_def by (rule div_bounds, simp)+
  have a: "0 \<le> a" "a \<le> 3" using r2 j unfolding a_def j_def[symmetric] min_def by auto
  show ?thesis using c q r1 r2 a by auto
qed

text \<open>The day number of the date of a day number is that day number.\<close>

lemma days_from_civil_civil:
  assumes "civil n = (y, m, d)"
  shows "days_from_civil y m d = n"
proof -
  define era where "era = (n + 719468) div 146097"
  define doe where "doe = (n + 719468) mod 146097"
  define c where "c = min (doe div 36524) 3"
  define r1 where "r1 = doe - c * 36524"
  define q where "q = r1 div 1461"
  define r2 where "r2 = r1 mod 1461"
  define a where "a = min (r2 div 365) 3"
  define doy where "doy = r2 - a * 365"
  define mp where "mp = (5 * doy + 2) div 153"
  define Y where "Y = 400 * era + 100 * c + 4 * q + a"
  note p = civil_parts[of n, folded doe_def, folded c_def, folded r1_def, folded q_def,
      folded r2_def, folded a_def]
  have doy: "0 \<le> doy" "doy \<le> 365"
    using doy_bounds[of r2] p by (simp_all add: doy_def a_def)
  note b = month_day_bounds[OF doy, folded mp_def]
  have "civil n = (Y + (if (if mp < 10 then mp + 3 else mp - 9) \<le> 2 then 1 else 0),
       (if mp < 10 then mp + 3 else mp - 9), doy - (153 * mp + 2) div 5 + 1)"
    unfolding civil_def Let_def Y_def mp_def doy_def a_def r2_def q_def r1_def c_def doe_def
      era_def ..
  then have "(y, m, d) =
      (Y + (if (if mp < 10 then mp + 3 else mp - 9) \<le> 2 then 1 else 0),
       (if mp < 10 then mp + 3 else mp - 9), doy - (153 * mp + 2) div 5 + 1)"
    unfolding assms .
  then have m: "m = (if mp < 10 then mp + 3 else mp - 9)"
    and d: "d = doy - (153 * mp + 2) div 5 + 1"
    and y0: "y = Y + (if (if mp < 10 then mp + 3 else mp - 9) \<le> 2 then 1 else 0)"
    by blast+
  have y: "y = Y + (if m \<le> 2 then 1 else 0)"
    unfolding y0 m ..
  have y': "(if m \<le> 2 then y - 1 else y) = Y"
    using y by simp
  have "(m + 9) mod 12 = mp"
  proof (cases "mp < 10")
    case True
    then have "m + 9 = 12 * 1 + mp" using m by simp
    then show ?thesis using b True by (intro int_mod_pos_eq[of _ 12 1]) simp_all
  next
    case False
    then have "m + 9 = 12 * 0 + mp" using m by simp
    then show ?thesis using b by (intro int_mod_pos_eq[of _ 12 0]) simp_all
  qed
  then have mp': "(153 * ((m + 9) mod 12) + 2) div 5 + d - 1 = doy"
    using d by simp
  have d4: "Y div 4 = 100 * era + 25 * c + q"
    using p by (intro int_div_pos_eq[of _ 4 _ a]) (simp_all add: Y_def)
  have d100: "Y div 100 = 4 * era + c"
    using p by (intro int_div_pos_eq[of _ 100 _ "4 * q + a"]) (simp_all add: Y_def)
  have d400: "Y div 400 = era"
    using p by (intro int_div_pos_eq[of _ 400 _ "100 * c + 4 * q + a"]) (simp_all add: Y_def)
  have z: "n + 719468 = 146097 * era + doe"
    by (simp add: era_def doe_def)
  have parts: "doe = 36524 * c + r1" "r1 = 1461 * q + r2" "r2 = 365 * a + doy"
    using p by (simp_all add: r1_def doy_def)
  have "days_from_civil y m d = 365 * Y + Y div 4 - Y div 100 + Y div 400 + doy - 719468"
    unfolding days_from_civil_def Let_def y' mp' ..
  also have "\<dots> = n"
    unfolding d4 d100 d400 using z parts by (simp add: Y_def)
  finally show ?thesis .
qed

subsection \<open>Decimal rendering\<close>

lemma length_show_nat_1: "n < 10 \<Longrightarrow> length (show_nat n) = 1"
  by (subst show_nat.simps) simp

lemma length_show_nat_2: "n < 100 \<Longrightarrow> length (show_nat n) \<le> 2"
  by (subst show_nat.simps) (simp add: length_show_nat_1)

lemma length_show_nat_3: "n < 1000 \<Longrightarrow> length (show_nat n) \<le> 3"
  using length_show_nat_2[of "n div 10"] by (subst show_nat.simps) simp

lemma length_show_nat_4: "n < 10000 \<Longrightarrow> length (show_nat n) \<le> 4"
  using length_show_nat_3[of "n div 10"] by (subst show_nat.simps) simp

lemma length_zero_padded: "length (show_nat n) \<le> w \<Longrightarrow> length (zero_padded w n) = w"
  by (simp add: zero_padded_def)

lemma take_date_part:
  assumes "length a = 4" "length b = 2" "length c = 2"
  shows "take 10 (a @ ''-'' @ b @ ''-'' @ c @ rest) = a @ ''-'' @ b @ ''-'' @ c"
  using assms by simp

lemma length_year4:
  assumes "0 \<le> YearFromTime t" "YearFromTime t \<le> 9999"
  shows "length (zero_padded 4 (nat (YearFromTime t))) = 4"
  using assms by (intro length_zero_padded length_show_nat_4) linarith

lemma length_month2: "length (zero_padded 2 (nat (MonthFromTime t + 1))) = 2"
  using MonthFromTime_bounds[of t] by (intro length_zero_padded length_show_nat_2) linarith

lemma length_date2: "length (zero_padded 2 (nat (DateFromTime t))) = 2"
  using DateFromTime_bounds[of t] by (intro length_zero_padded length_show_nat_2) linarith

text \<open>For a year from 0 to 9999, the first ten characters of toISOString are the UTC date.\<close>

lemma slice_toISOString:
  assumes "0 \<le> YearFromTime t" "YearFromTime t \<le> 9999"
  shows "slice0 10 (toISOString t) =
           zero_padded 4 (nat (YearFromTime t)) @ ''-'' @
           zero_padded 2 (nat (MonthFromTime t + 1)) @ ''-'' @
           zero_padded 2 (nat (DateFromTime t))"
proof -
  have "toISOString t =
      zero_padded 4 (nat (YearFromTime t)) @ ''-'' @
      zero_padded 2 (nat (MonthFromTime t + 1)) @ ''-'' @
      zero_padded 2 (nat (DateFromTime t)) @
      (''T'' @ zero_padded 2 (nat (t mod msPerDay div 3600000)) @ '':'' @
       zero_padded 2 (nat (t mod 3600000 div 60000)) @ '':'' @
       zero_padded 2 (nat (t mod 60000 div 1000)) @ ''.'' @
       zero_padded 3 (nat (t mod 1000)) @ ''Z'')"
    using assms by (simp add: toISOString_def iso_year_def)
  then show ?thesis
    unfolding slice0_def
    using take_date_part[OF length_year4[OF assms] length_month2 length_date2] by simp
qed

lemma length_slice_toISOString:
  assumes "0 \<le> YearFromTime t" "YearFromTime t \<le> 9999"
  shows "length (slice0 10 (toISOString t)) = 10"
  unfolding slice_toISOString[OF assms]
  by (simp add: length_year4[OF assms] length_month2 length_date2)

subsection \<open>The store\<close>

lemma fold_max_ge: "(a::int) \<le> fold max xs a"
proof (induction xs arbitrary: a)
  case Nil
  show ?case by simp
next
  case (Cons y ys)
  have "a \<le> max y a" by simp
  also have "\<dots> \<le> fold max ys (max y a)" by (rule Cons.IH)
  finally show ?case by simp
qed

lemma fold_max_mem: "(x::int) \<in> set xs \<Longrightarrow> x \<le> fold max xs a"
proof (induction xs arbitrary: a)
  case Nil
  then show ?case by simp
next
  case (Cons y ys)
  show ?case
  proof (cases "x = y")
    case True
    have "y \<le> max y a" by simp
    also have "\<dots> \<le> fold max ys (max y a)" by (rule fold_max_ge)
    finally show ?thesis using True by simp
  next
    case False
    with Cons show ?thesis by simp
  qed
qed

text \<open>The id AUTOINCREMENT hands out is larger than every id in the table.\<close>

lemma next_rowid_fresh: "r \<in> set (table_rows d) \<Longrightarrow> ident r < next_rowid d"
  using fold_max_mem[of "ident r" "map ident (table_rows d)" "sequence d"]
  by (simp add: next_rowid_def)

lemma expenses_loadExpenses: "expenses (loadExpenses st) = fst (select_all_desc (db st))"
  by (simp add: loadExpenses_def split: prod.splits)

lemma table_rows_loadExpenses: "table_rows (db (loadExpenses st)) = table_rows (db st)"
  by (simp add: loadExpenses_def select_all_desc_def)

text \<open>What addExpense does once both checks have passed.\<close>

lemma addExpense_inserts:
  assumes "\<not> isNaN (parseFloat (amount_input st))"
    and "\<not> js_le (parseFloat (amount_input st)) (Fin 0)"
    and "trim (category_input st) \<noteq> []"
  shows "addExpense now st =
     Inr (loadExpenses
       (st\<lparr>db := (db st)
               \<lparr>table_rows := table_rows (db st) @
                  [\<lparr>ident = next_rowid (db st), amount = parseFloat (amount_input st),
                    category = trim (category_input st), note_text = trim (note_input st),
                    date = slice0 10 (toISOString now)\<rparr>],
                sequence := next_rowid (db st),
                executed := executed (db st) @ [InsertRow]\<rparr>,
            amount_input := [], category_input := [], note_input := []\<rparr>))"
  using assms by (simp add: addExpense_def Let_def insert_expense_def isNaN_def)

subsection \<open>Evaluation at the sample inputs\<close>

lemma show_nat_digit: "n < 10 \<Longrightarrow> show_nat n = [digit_char n]"
  by (subst show_nat.simps) simp

lemma show_nat_more: "10 \<le> n \<Longrightarrow> show_nat n = show_nat (n div 10) @ [digit_char (n mod 10)]"
  by (subst show_nat.simps) simp

lemmas eval_text = zero_padded_def show_nat_digit show_nat_more digit_char_def iso_year_def
  slice0_def day_name_def month_name_def

lemmas eval_time = msPerDay_def Day_def WeekDay_def LocalTime_def UTC_def YearFromTime_def
  MonthFromTime_def DateFromTime_def getFullYear_def getMonth_def getDate_def getDay_def
  MakeDay_def DaysInMonth_def date_from_fields_def

lemmas eval_parse = parseFloat_def trimStart_def is_js_space_def str_unsigned_decimal_def
  is_digit_def digits_val_def digit_val_def pow10_def exponent_part_def trim_def

lemmas eval_store = insert_expense_def update_expense_def next_rowid_def loadExpenses_def
  select_all_desc_def row_def db0_def form_def

lemma civil_19870: "civil 19870 = (2024, 5, 27)"
  by (subst civil_def, simp only: Let_def, simp)

lemma civil_19874: "civil 19874 = (2024, 5, 31)"
  by (subst civil_def, simp only: Let_def, simp)

lemma civil_19875: "civil 19875 = (2024, 6, 1)"
  by (subst civil_def, simp only: Let_def, simp)

lemma civil_19876: "civil 19876 = (2024, 6, 2)"
  by (subst civil_def, simp only: Let_def, simp)

lemma civil_19877: "civil 19877 = (2024, 6, 3)"
  by (subst civil_def, simp only: Let_def, simp)

lemma civil_19879: "civil 19879 = (2024, 6, 5)"
  by (subst civil_def, simp only: Let_def, simp)

lemma civil_19883: "civil 19883 = (2024, 6, 9)"
  by (subst civil_def, simp only: Let_def, simp)

lemma civil_19884: "civil 19884 = (2024, 6, 10)"
  by (subst civil_def, simp only: Let_def, simp)

lemma civil_19904: "civil 19904 = (2024, 6, 30)"
  by (subst civil_def, simp only: Let_def, simp)

lemma civil_19905: "civil 19905 = (2024, 7, 1)"
  by (subst civil_def, simp only: Let_def, simp)

lemma days_2024_5: "days_from_civil 2024 5 1 = 19844"
  by (subst days_from_civil_def, simp only: Let_def, simp)

lemma days_2024_6: "days_from_civil 2024 6 1 = 19875"
  by (subst days_from_civil_def, simp only: Let_def, simp)

lemma days_2024_7: "days_from_civil 2024 7 1 = 19905"
  by (subst days_from_civil_def, simp only: Let_def, simp)

lemmas eval_days = civil_19870 civil_19874 civil_19875 civil_19876 civil_19877 civil_19879
  civil_19883 civil_19884 civil_19904 civil_19905 days_2024_5 days_2024_6 days_2024_7

lemma today_june5: "slice0 10 (toISOString june5) = ''2024-06-05''"
  by (simp add: toISOString_def eval_time eval_text eval_days june5_def)

lemma today_july1: "slice0 10 (toISOString july1_0100z) = ''2024-07-01''"
  by (simp add: toISOString_def eval_time eval_text eval_days july1_0100z_def)

lemmas eval_object = totalsByCategory_def chart_totals_def getChartData_def add_to_category_def
  obj_get_def obj_set_def truthy_def js_plus_def num_truthy_def object_prototype_names_def
  Object_keys_def Object_values_def is_array_index_def is_digit_def digits_val_def
  digit_val_def chart_category_def chart_amount_def labelled_other_def row_def Let_def

lemma civil_19882: "civil 19882 = (2024, 6, 8)"
  by (subst civil_def, simp only: Let_def, simp)

lemma days_2024_8: "days_from_civil 2024 8 1 = 19936"
  by (subst days_from_civil_def, simp only: Let_def, simp)

lemma parse_june1: "date_only_parse ''2024-06-01'' = Some (19875 * msPerDay)"
  by (simp add: date_only_parse_def eval_time eval_days is_digit_def digits_val_def
      digit_val_def)

lemma parse_june3: "date_only_parse ''2024-06-03'' = Some (19877 * msPerDay)"
  by (simp add: date_only_parse_def eval_time eval_days is_digit_def digits_val_def
      digit_val_def)

lemma parse_june9: "date_only_parse ''2024-06-09'' = Some (19883 * msPerDay)"
  by (simp add: date_only_parse_def eval_time eval_days is_digit_def digits_val_def
      digit_val_def)

lemma parse_june10: "date_only_parse ''2024-06-10'' = Some (19884 * msPerDay)"
  by (simp add: date_only_parse_def eval_time eval_days is_digit_def digits_val_def
      digit_val_def)

lemma parse_july1: "date_only_parse ''2024-07-01'' = Some (19905 * msPerDay)"
  by (simp add: date_only_parse_def eval_time eval_days days_2024_8 is_digit_def
      digits_val_def digit_val_def)

lemmas eval_week = isSameWeek_def isSameMonth_def getWeekStart_def toDateString_def
  parse_june1 parse_june3 parse_june9 parse_june10 parse_july1 eval_time eval_text eval_days
  civil_19882 june5_def utc_minus_5_def Let_def

section \<open>Creating an expense\<close>

text \<open>
  C1, as the code has it. When parseFloat of the amount text is NaN, negative infinity or
  a finite number that is at most zero, or when the category text is empty after
  trimming, addExpense completes normally and returns the state it was given: the rows
  of the store, the list of statements the store has executed, the records in memory and
  the three text inputs are all unchanged. No error is signalled on this path, and an
  amount that parses to positive infinity is not among the rejected ones.
\<close>

theorem addExpense_invalid_noop:
  assumes "(case parseFloat (amount_input st) of
              Fin q \<Rightarrow> q \<le> 0 | PosInf \<Rightarrow> False | NegInf \<Rightarrow> True | NaN \<Rightarrow> True) \<or>
           trim (category_input st) = []"
  shows "addExpense now st = Inr st"
  using assms by (auto simp: addExpense_def Let_def isNaN_def split: jsnum.splits)

theorem addExpense_invalid_noop_witness:
  "((case parseFloat (amount_input (form ''abc'' ''Food'' ''lunch'')) of
       Fin q \<Rightarrow> q \<le> 0 | PosInf \<Rightarrow> False | NegInf \<Rightarrow> True | NaN \<Rightarrow> True) \<or>
    trim (category_input (form ''abc'' ''Food'' ''lunch'')) = []) \<and>
   addExpense june5 (form ''abc'' ''Food'' ''lunch'') = Inr (form ''abc'' ''Food'' ''lunch'')"
proof -
  have "parseFloat (amount_input (form ''abc'' ''Food'' ''lunch'')) = NaN"
    by (simp add: form_def eval_parse)
  then have h: "(case parseFloat (amount_input (form ''abc'' ''Food'' ''lunch'')) of
       Fin q \<Rightarrow> q \<le> 0 | PosInf \<Rightarrow> False | NegInf \<Rightarrow> True | NaN \<Rightarrow> True) \<or>
    trim (category_input (form ''abc'' ''Food'' ''lunch'')) = []"
    by simp
  from h addExpense_invalid_noop[OF h, of june5] show ?thesis
    by simp
qed

text \<open>
  C1 as stated fails twice. The amount text \<^verbatim>\<open>Infinity\<close> does not parse as a finite
  number, yet addExpense inserts a row for it and reloads; and on the amount \<^verbatim>\<open>-1\<close>
  addExpense returns normally, just as it does after a successful insert: there is no
  error value for the caller to see.
\<close>

theorem addExpense_invalid_counterexample:
  "parseFloat ''Infinity'' = PosInf \<and>
   addExpense june5 (form ''Infinity'' ''Food'' []) =
     Inr \<lparr>db = \<lparr>table_rows = [row 1 PosInf ''Food'' ''2024-06-05''],
                sequence = 1, executed = [InsertRow, SelectAll]\<rparr>,
          expenses = [row 1 PosInf ''Food'' ''2024-06-05''],
          amount_input = [], category_input = [], note_input = [],
          filter_mode = ''ALL'', editingExpense = None\<rparr> \<and>
   addExpense june5 (form ''-1'' ''Food'' []) = Inr (form ''-1'' ''Food'' [])"
  by (simp add: addExpense_def Let_def isNaN_def eval_parse eval_store today_june5)

text \<open>
  C5, as the code has it. When parseFloat of the amount text is a number other than NaN
  that is not at most zero and the trimmed category is not empty, addExpense appends one
  row to the table and reloads. The row's amount is the parsed number, its category the
  trimmed category text, its note the trimmed note text, its date the first ten
  characters of the instant's ISO rendering; its id is the next AUTOINCREMENT id, larger
  than every id in the table before. The earlier rows are untouched and the records in
  memory are the table's rows in descending order of id.
\<close>

theorem addExpense_round_trip:
  assumes "\<not> isNaN (parseFloat (amount_input st))"
    and "\<not> js_le (parseFloat (amount_input st)) (Fin 0)"
    and "trim (category_input st) \<noteq> []"
  shows "\<exists>st'. addExpense now st = Inr st' \<and>
           table_rows (db st') = table_rows (db st) @
             [\<lparr>ident = next_rowid (db st), amount = parseFloat (amount_input st),
               category = trim (category_input st), note_text = trim (note_input st),
               date = slice0 10 (toISOString now)\<rparr>] \<and>
           expenses st' = rev (sort_key ident (table_rows (db st'))) \<and>
           list_all (\<lambda>r. ident r < next_rowid (db st)) (table_rows (db st))"
proof -
  have "list_all (\<lambda>r. ident r < next_rowid (db st)) (table_rows (db st))"
    by (simp add: list_all_iff next_rowid_fresh)
  then show ?thesis
    unfolding addExpense_inserts[OF assms]
    by (simp add: table_rows_loadExpenses expenses_loadExpenses select_all_desc_def)
qed

theorem addExpense_round_trip_witness:
  "\<not> isNaN (parseFloat (amount_input (form ''12.50'' '' Food '' '' lunch '')))  \<and>
   \<not> js_le (parseFloat (amount_input (form ''12.50'' '' Food '' '' lunch ''))) (Fin 0) \<and>
   trim (category_input (form ''12.50'' '' Food '' '' lunch '')) \<noteq> [] \<and>
   (\<exists>st'. addExpense june5 (form ''12.50'' '' Food '' '' lunch '') = Inr st' \<and>
      table_rows (db st') =
        [\<lparr>ident = 1, amount = Fin (25 / 2), category = ''Food'', note_text = ''lunch'',
          date = ''2024-06-05''\<rparr>] \<and>
      expenses st' = rev (sort_key ident (table_rows (db st'))))"
proof -
  have a: "\<not> isNaN (parseFloat (amount_input (form ''12.50'' '' Food '' '' lunch '')))"
    by (simp add: form_def isNaN_def eval_parse)
  have b: "\<not> js_le (parseFloat (amount_input (form ''12.50'' '' Food '' '' lunch ''))) (Fin 0)"
    by (simp add: form_def eval_parse)
  have c: "trim (category_input (form ''12.50'' '' Food '' '' lunch '')) \<noteq> []"
    by (simp add: form_def eval_parse)
  have r: "table_rows (db (form ''12.50'' '' Food '' '' lunch '')) @
             [\<lparr>ident = next_rowid (db (form ''12.50'' '' Food '' '' lunch '')),
               amount = parseFloat (amount_input (form ''12.50'' '' Food '' '' lunch '')),
               category = trim (category_input (form ''12.50'' '' Food '' '' lunch '')),
               note_text = trim (note_input (form ''12.50'' '' Food '' '' lunch '')),
               date = slice0 10 (toISOString june5)\<rparr>] =
        [\<lparr>ident = 1, amount = Fin (25 / 2), category = ''Food'', note_text = ''lunch'',
          date = ''2024-06-05''\<rparr>]"
    by (simp add: eval_parse eval_store today_june5)
  from addExpense_round_trip[OF a b c, of june5] obtain st' where
    "addExpense june5 (form ''12.50'' '' Food '' '' lunch '') = Inr st'"
    "table_rows (db st') =
        [\<lparr>ident = 1, amount = Fin (25 / 2), category = ''Food'', note_text = ''lunch'',
          date = ''2024-06-05''\<rparr>]"
    "expenses st' = rev (sort_key ident (table_rows (db st')))"
    unfolding r by blast
  with a b c show ?thesis by blast
qed

text \<open>
  C5 as stated fails on the note: the note text \<^verbatim>\<open> lunch \<close>, with a space on each side,
  is stored as \<^verbatim>\<open>lunch\<close>.
\<close>

theorem addExpense_note_counterexample:
  "addExpense june5 (form ''12.50'' ''Food'' '' lunch '') =
     Inr \<lparr>db = \<lparr>table_rows =
                  [\<lparr>ident = 1, amount = Fin (25 / 2), category = ''Food'',
                    note_text = ''lunch'', date = ''2024-06-05''\<rparr>],
                sequence = 1, executed = [InsertRow, SelectAll]\<rparr>,
          expenses =
            [\<lparr>ident = 1, amount = Fin (25 / 2), category = ''Food'',
              note_text = ''lunch'', date = ''2024-06-05''\<rparr>],
          amount_input = [], category_input = [], note_input = [],
          filter_mode = ''ALL'', editingExpense = None\<rparr> \<and>
   '' lunch '' \<noteq> ''lunch''"
  by (simp add: addExpense_def Let_def isNaN_def eval_parse eval_store today_june5)

text \<open>
  The date addExpense stores. Whenever addExpense inserts, at an instant whose UTC year is
  between 0 and 9999, the date of the new row is the UTC calendar date of that instant:
  four digits of the year, two of the month and two of the day, joined by hyphens. The
  local time zone plays no part.
\<close>

lemma addExpense_date_utc:
  assumes "\<not> isNaN (parseFloat (amount_input st))"
    and "\<not> js_le (parseFloat (amount_input st)) (Fin 0)"
    and "trim (category_input st) \<noteq> []"
    and "0 \<le> YearFromTime now" and "YearFromTime now \<le> 9999"
  shows "\<exists>st' r. addExpense now st = Inr st' \<and>
           table_rows (db st') = table_rows (db st) @ [r] \<and>
           date r = zero_padded 4 (nat (YearFromTime now)) @ ''-'' @
                    zero_padded 2 (nat (MonthFromTime now + 1)) @ ''-'' @
                    zero_padded 2 (nat (DateFromTime now)) \<and>
           length (date r) = 10"
proof -
  have "length (slice0 10 (toISOString now)) = 10"
    by (rule length_slice_toISOString[OF assms(4,5)])
  then show ?thesis
    unfolding addExpense_inserts[OF assms(1-3)]
    by (simp add: table_rows_loadExpenses slice_toISOString[OF assms(4,5)])
qed

text \<open>
  C3 at a failing input. The variable \<^verbatim>\<open>today\<close> of addExpense is the first ten
  characters of \<^verbatim>\<open>toISOString\<close>, which renders UTC. Five hours west of UTC, at 20:00
  on Sunday 30 June 2024, the calendar date in the local time zone is 30 June, and the
  date stored with the new row is \<^verbatim>\<open>2024-07-01\<close>.
\<close>

theorem addExpense_date_west_of_utc:
  "toDateString utc_minus_5 (Some july1_0100z) = ''Sun Jun 30 2024'' \<and>
   getFullYear utc_minus_5 july1_0100z = 2024 \<and>
   getMonth utc_minus_5 july1_0100z + 1 = 6 \<and>
   getDate utc_minus_5 july1_0100z = 30 \<and>
   addExpense july1_0100z (form ''12.50'' ''Food'' []) =
     Inr \<lparr>db = \<lparr>table_rows = [row 1 (Fin (25 / 2)) ''Food'' ''2024-07-01''],
                sequence = 1, executed = [InsertRow, SelectAll]\<rparr>,
          expenses = [row 1 (Fin (25 / 2)) ''Food'' ''2024-07-01''],
          amount_input = [], category_input = [], note_input = [],
          filter_mode = ''ALL'', editingExpense = None\<rparr>"
proof -
  have "toDateString utc_minus_5 (Some july1_0100z) = ''Sun Jun 30 2024'' \<and>
        getFullYear utc_minus_5 july1_0100z = 2024 \<and>
        getMonth utc_minus_5 july1_0100z + 1 = 6 \<and>
        getDate utc_minus_5 july1_0100z = 30"
    by (simp add: toDateString_def eval_time eval_text eval_days july1_0100z_def
        utc_minus_5_def)
  moreover have "addExpense july1_0100z (form ''12.50'' ''Food'' []) =
     Inr \<lparr>db = \<lparr>table_rows = [row 1 (Fin (25 / 2)) ''Food'' ''2024-07-01''],
                sequence = 1, executed = [InsertRow, SelectAll]\<rparr>,
          expenses = [row 1 (Fin (25 / 2)) ''Food'' ''2024-07-01''],
          amount_input = [], category_input = [], note_input = [],
          filter_mode = ''ALL'', editingExpense = None\<rparr>"
    by (simp add: addExpense_def Let_def isNaN_def eval_parse eval_store today_july1)
  ultimately show ?thesis by blast
qed

section \<open>Saving an edit\<close>

lemma updated_row:
  fixes r e :: expense
  shows "ident r = ident e \<Longrightarrow>
   r\<lparr>amount := amount e, category := category e, note_text := or_empty (note_text e),
     date := date e\<rparr> = e"
  by (cases r, cases e) (simp add: or_empty_def)

lemma filter_others_map:
  assumes "f e = i"
  shows "filter (\<lambda>r. f r \<noteq> i) (map (\<lambda>r. if f r = i then e else r) xs) =
         filter (\<lambda>r. f r \<noteq> i) xs"
  using assms by (induction xs) auto

lemma filter_hit_absent:
  assumes "i \<notin> f ` set xs"
  shows "filter (\<lambda>r. f r = i) (map (\<lambda>r. if f r = i then e else r) xs) = []"
  using assms by (induction xs) auto

lemma filter_hit_map:
  assumes "distinct (map f xs)" and "i \<in> f ` set xs" and "f e = i"
  shows "filter (\<lambda>r. f r = i) (map (\<lambda>r. if f r = i then e else r) xs) = [e]"
  using assms
proof (induction xs)
  case Nil
  then show ?case by simp
next
  case (Cons x xs)
  show ?case
  proof (cases "f x = i")
    case True
    with Cons.prems(1) have "i \<notin> f ` set xs" by auto
    then show ?thesis using True Cons.prems(3) by (simp add: filter_hit_absent)
  next
    case False
    with Cons show ?thesis by auto
  qed
qed

lemma update_expense_record:
  assumes "amount e \<noteq> NaN"
  shows "update_expense d (amount e) (category e) (or_empty (note_text e)) (date e) (ident e) =
     Inr (d\<lparr>table_rows := map (\<lambda>r. if ident r = ident e then e else r) (table_rows d),
            executed := executed d @ [UpdateRow]\<rparr>)"
proof -
  have eq: "map (\<lambda>r. if ident r = ident e
                   then r\<lparr>amount := amount e, category := category e,
                          note_text := or_empty (note_text e), date := date e\<rparr>
                   else r) (table_rows d) =
        map (\<lambda>r. if ident r = ident e then e else r) (table_rows d)"
    by (rule map_cong) (simp_all add: updated_row)
  show ?thesis
    using assms by (simp add: update_expense_def eq)
qed

lemma handleSaveEdit_updates:
  assumes "editingExpense st = Some e" and "amount e \<noteq> NaN"
  shows "handleSaveEdit st =
     Inr ((loadExpenses
            (st\<lparr>db := (db st)
                    \<lparr>table_rows := map (\<lambda>r. if ident r = ident e then e else r)
                                    (table_rows (db st)),
                     executed := executed (db st) @ [UpdateRow]\<rparr>\<rparr>))
          \<lparr>editingExpense := None\<rparr>)"
  using assms by (simp add: handleSaveEdit_def update_expense_record)

text \<open>
  C9, as the code has it. Let the edit panel hold a record \<open>e\<close> whose amount is not NaN,
  and let the table have distinct ids, one of them the id of \<open>e\<close>. Then handleSaveEdit
  succeeds; the table keeps its length; the rows with other ids are the same rows in the
  same order; the one row with that id is \<open>e\<close> itself, id included; and the records in
  memory are the table's rows in descending order of id, \<open>e\<close> among them. Nothing else
  about \<open>e\<close> is checked: its amount may be zero, negative or infinite and its category
  empty.
\<close>

theorem handleSaveEdit_replaces:
  assumes "editingExpense st = Some e" and "amount e \<noteq> NaN"
    and "distinct (map ident (table_rows (db st)))"
    and "ident e \<in> ident ` set (table_rows (db st))"
  shows "\<exists>st'. handleSaveEdit st = Inr st' \<and>
           length (table_rows (db st')) = length (table_rows (db st)) \<and>
           filter (\<lambda>r. ident r \<noteq> ident e) (table_rows (db st')) =
             filter (\<lambda>r. ident r \<noteq> ident e) (table_rows (db st)) \<and>
           filter (\<lambda>r. ident r = ident e) (table_rows (db st')) = [e] \<and>
           expenses st' = rev (sort_key ident (table_rows (db st'))) \<and>
           e \<in> set (expenses st')"
proof -
  let ?rows = "map (\<lambda>r. if ident r = ident e then e else r) (table_rows (db st))"
  let ?st' = "(loadExpenses
                (st\<lparr>db := (db st)\<lparr>table_rows := ?rows,
                                      executed := executed (db st) @ [UpdateRow]\<rparr>\<rparr>))
              \<lparr>editingExpense := None\<rparr>"
  have t: "table_rows (db ?st') = ?rows"
    by (simp add: table_rows_loadExpenses)
  have x: "expenses ?st' = rev (sort_key ident ?rows)"
    by (simp add: expenses_loadExpenses select_all_desc_def)
  have hit: "filter (\<lambda>r. ident r = ident e) ?rows = [e]"
    by (rule filter_hit_map[OF assms(3,4)]) simp
  have "e \<in> set (filter (\<lambda>r. ident r = ident e) ?rows)"
    unfolding hit by simp
  then have mem: "e \<in> set ?rows"
    by (simp del: set_map)
  show ?thesis
  proof (intro exI conjI)
    show "handleSaveEdit st = Inr ?st'"
      by (rule handleSaveEdit_updates[OF assms(1,2)])
    show "length (table_rows (db ?st')) = length (table_rows (db st))"
      unfolding t by simp
    show "filter (\<lambda>r. ident r \<noteq> ident e) (table_rows (db ?st')) =
          filter (\<lambda>r. ident r \<noteq> ident e) (table_rows (db st))"
      unfolding t by (rule filter_others_map) simp
    show "filter (\<lambda>r. ident r = ident e) (table_rows (db ?st')) = [e]"
      unfolding t by (rule hit)
    show "expenses ?st' = rev (sort_key ident (table_rows (db ?st')))"
      unfolding t by (rule x)
    show "e \<in> set (expenses ?st')"
      unfolding x using mem by simp
  qed
qed

theorem handleSaveEdit_replaces_witness:
  "editingExpense
     (editing \<lparr>ident = 2, amount = Fin (- 3), category = [], note_text = ''x'',
               date = ''2020-01-01''\<rparr>) =
     Some \<lparr>ident = 2, amount = Fin (- 3), category = [], note_text = ''x'',
           date = ''2020-01-01''\<rparr> \<and>
   Fin (- 3) \<noteq> NaN \<and>
   distinct (map ident (table_rows (db (editing
     \<lparr>ident = 2, amount = Fin (- 3), category = [], note_text = ''x'',
      date = ''2020-01-01''\<rparr>)))) \<and>
   2 \<in> ident ` set (table_rows (db (editing
     \<lparr>ident = 2, amount = Fin (- 3), category = [], note_text = ''x'',
      date = ''2020-01-01''\<rparr>))) \<and>
   (\<exists>st'. handleSaveEdit
        (editing \<lparr>ident = 2, amount = Fin (- 3), category = [], note_text = ''x'',
                  date = ''2020-01-01''\<rparr>) = Inr st' \<and>
      expenses st' =
        [row 3 (Fin 20) ''Books'' ''2024-06-09'',
         \<lparr>ident = 2, amount = Fin (- 3), category = [], note_text = ''x'',
          date = ''2020-01-01''\<rparr>,
         row 1 (Fin 10) ''Food'' ''2024-06-03''])"
proof -
  let ?e = "\<lparr>ident = 2, amount = Fin (- 3), category = [], note_text = ''x'',
             date = ''2020-01-01''\<rparr>"
  have a: "editingExpense (editing ?e) = Some ?e"
    by (simp add: editing_def)
  have b: "amount ?e \<noteq> NaN"
    by simp
  have c: "distinct (map ident (table_rows (db (editing ?e))))"
    by (simp add: editing_def stocked_def table_rows_loadExpenses row_def)
  have d: "ident ?e \<in> ident ` set (table_rows (db (editing ?e)))"
    by (simp add: editing_def stocked_def table_rows_loadExpenses row_def)
  have rows: "table_rows (db (editing ?e)) =
      [row 1 (Fin 10) ''Food'' ''2024-06-03'', row 2 (Fin 5) ''Food'' ''2023-01-09'',
       row 3 (Fin 20) ''Books'' ''2024-06-09'']"
    by (simp add: editing_def stocked_def table_rows_loadExpenses)
  from handleSaveEdit_replaces[OF a b c d] obtain st' where
    s: "handleSaveEdit (editing ?e) = Inr st'"
    and r: "expenses st' = rev (sort_key ident (table_rows (db st')))"
    by blast
  from s have "st' =
      (loadExpenses
        ((editing ?e)\<lparr>db := (db (editing ?e))
           \<lparr>table_rows := map (\<lambda>r. if ident r = ident ?e then ?e else r)
                           (table_rows (db (editing ?e))),
            executed := executed (db (editing ?e)) @ [UpdateRow]\<rparr>\<rparr>))
      \<lparr>editingExpense := None\<rparr>"
    unfolding handleSaveEdit_updates[OF a b] by simp
  then have "table_rows (db st') =
      map (\<lambda>r. if ident r = ident ?e then ?e else r) (table_rows (db (editing ?e)))"
    by (simp add: table_rows_loadExpenses)
  then have "table_rows (db st') =
      [row 1 (Fin 10) ''Food'' ''2024-06-03'', ?e, row 3 (Fin 20) ''Books'' ''2024-06-09'']"
    unfolding rows by (simp add: row_def)
  with r have ex: "expenses st' =
      [row 3 (Fin 20) ''Books'' ''2024-06-09'', ?e, row 1 (Fin 10) ''Food'' ''2024-06-03'']"
    by (simp add: row_def)
  have "\<exists>st'. handleSaveEdit (editing ?e) = Inr st' \<and>
      expenses st' =
        [row 3 (Fin 20) ''Books'' ''2024-06-09'', ?e, row 1 (Fin 10) ''Food'' ''2024-06-03'']"
    using s ex by blast
  with a c d show ?thesis by simp
qed

text \<open>
  C9 as stated fails when the amount typed into the edit panel is not a number: the
  UPDATE is rejected by the NOT NULL constraint on \<open>amount\<close>, handleSaveEdit throws,
  and no row changes.
\<close>

theorem handleSaveEdit_nan_counterexample:
  "handleSaveEdit (editing (row 2 NaN ''Food'' ''2023-01-09'')) = Inl NotNullConstraint"
  by (simp add: handleSaveEdit_def editing_def update_expense_def row_def)

section \<open>Deleting an expense\<close>

lemma length_filter_hit:
  assumes "distinct (map f xs)" and "i \<in> f ` set xs"
  shows "length (filter (\<lambda>r. f r = i) xs) = 1"
  using assms
proof (induction xs)
  case Nil
  then show ?case by simp
next
  case (Cons x xs)
  show ?case
  proof (cases "f x = i")
    case True
    with Cons.prems(1) have "i \<notin> f ` set xs"
      by auto
    then have "filter (\<lambda>r. f r = i) xs = []"
      by (auto simp: filter_empty_conv)
    with True show ?thesis by simp
  next
    case False
    with Cons show ?thesis by auto
  qed
qed

text \<open>
  deleteExpense removes the rows with the given id and reloads. Over a table with
  distinct ids, an id that is present takes exactly one record with it and an id that is
  absent leaves the rows as they were; in both cases no record in memory has that id
  afterwards.
\<close>

lemma deleteExpense_removes:
  assumes "distinct (map ident (table_rows (db st)))"
  shows "table_rows (db (deleteExpense i st)) =
           filter (\<lambda>r. ident r \<noteq> i) (table_rows (db st)) \<and>
         expenses (deleteExpense i st) =
           rev (sort_key ident (table_rows (db (deleteExpense i st)))) \<and>
         i \<notin> ident ` set (expenses (deleteExpense i st)) \<and>
         (i \<in> ident ` set (table_rows (db st)) \<longrightarrow>
            length (expenses (deleteExpense i st)) + 1 = length (table_rows (db st))) \<and>
         (i \<notin> ident ` set (table_rows (db st)) \<longrightarrow>
            table_rows (db (deleteExpense i st)) = table_rows (db st))"
proof -
  let ?rows = "table_rows (db st)"
  have t: "table_rows (db (deleteExpense i st)) = filter (\<lambda>r. ident r \<noteq> i) ?rows"
    by (simp add: deleteExpense_def table_rows_loadExpenses delete_expense_def)
  have x: "expenses (deleteExpense i st) =
           rev (sort_key ident (table_rows (db (deleteExpense i st))))"
    by (simp add: deleteExpense_def expenses_loadExpenses select_all_desc_def
        delete_expense_def table_rows_loadExpenses)
  have gone: "i \<notin> ident ` set (expenses (deleteExpense i st))"
    unfolding x t by auto
  have "length (expenses (deleteExpense i st)) + 1 = length ?rows"
    if "i \<in> ident ` set ?rows"
  proof -
    have "length (filter (\<lambda>r. ident r = i) ?rows) = 1"
      by (rule length_filter_hit[OF assms that])
    moreover have "length (filter (\<lambda>r. ident r = i) ?rows) +
                   length (filter (\<lambda>r. \<not> ident r = i) ?rows) = length ?rows"
      by (rule sum_length_filter_compl)
    ultimately show ?thesis
      unfolding x t by simp
  qed
  moreover have "table_rows (db (deleteExpense i st)) = ?rows" if "i \<notin> ident ` set ?rows"
    unfolding t using that by (auto simp: filter_id_conv)
  ultimately show ?thesis
    using t x gone by blast
qed

section \<open>Filtering\<close>

text \<open>
  C7. Under the mode \<^verbatim>\<open>ALL\<close> the filter returns the records as they are, and so it
  does, without failing, under any mode other than \<^verbatim>\<open>ALL\<close>, \<^verbatim>\<open>WEEK\<close> and \<^verbatim>\<open>MONTH\<close>.
\<close>

theorem filteredExpenses_all_or_unknown:
  "filteredExpenses tz now ''ALL'' es = es \<and>
   (mode \<notin> {''ALL'', ''WEEK'', ''MONTH''} \<longrightarrow> filteredExpenses tz now mode es = es)"
  by (simp add: filteredExpenses_def)

theorem filteredExpenses_all_or_unknown_witness:
  "''YEAR'' \<notin> {''ALL'', ''WEEK'', ''MONTH''} \<and>
   filteredExpenses 0 june5 ''ALL'' [row 2 (Fin 5) ''Food'' ''2024-06-03'', row 1 (Fin 7) ''Books'' ''2023-01-09''] =
     [row 2 (Fin 5) ''Food'' ''2024-06-03'', row 1 (Fin 7) ''Books'' ''2023-01-09''] \<and>
   filteredExpenses 0 june5 ''YEAR'' [row 2 (Fin 5) ''Food'' ''2024-06-03'', row 1 (Fin 7) ''Books'' ''2023-01-09''] =
     [row 2 (Fin 5) ''Food'' ''2024-06-03'', row 1 (Fin 7) ''Books'' ''2023-01-09'']"
  using filteredExpenses_all_or_unknown
    [of 0 june5 "[row 2 (Fin 5) ''Food'' ''2024-06-03'', row 1 (Fin 7) ''Books'' ''2023-01-09'']" "''YEAR''"]
  by simp

lemma select_all_desc_strict:
  assumes "distinct (map ident (table_rows d))"
  shows "sorted_wrt (\<lambda>a b. ident b < ident a) (fst (select_all_desc d))"
proof -
  have "distinct (map ident (sort_key ident (table_rows d)))"
    using assms by (simp add: distinct_map)
  moreover have "sorted (map ident (sort_key ident (table_rows d)))"
    by simp
  ultimately have "sorted_wrt (<) (map ident (sort_key ident (table_rows d)))"
    by (simp add: strict_sorted_iff)
  then have "sorted_wrt (\<lambda>a b. ident a < ident b) (sort_key ident (table_rows d))"
    by (simp add: sorted_wrt_map)
  then show ?thesis
    by (simp add: select_all_desc_def sorted_wrt_rev)
qed

text \<open>
  C10. Whatever the mode and the instant, the filter returns a subsequence of the records
  it is given: nothing is added, changed, repeated or reordered. Applied to the records
  as loadExpenses leaves them, over a table whose ids are distinct, the result is, like
  them, in strictly descending order of id.
\<close>

theorem filteredExpenses_subsequence:
  "subseq (filteredExpenses tz now mode es) es \<and>
   (distinct (map ident (table_rows (db st))) \<longrightarrow>
    sorted_wrt (\<lambda>a b. ident b < ident a)
      (filteredExpenses tz now mode (expenses (loadExpenses st))))"
  by (simp add: filteredExpenses_def expenses_loadExpenses select_all_desc_strict
      sorted_wrt_filter)

theorem filteredExpenses_subsequence_witness:
  "distinct (map ident (table_rows (db stocked))) \<and>
   subseq (filteredExpenses 0 june5 ''WEEK'' (expenses (loadExpenses stocked)))
     (expenses (loadExpenses stocked)) \<and>
   sorted_wrt (\<lambda>a b. ident b < ident a)
     (filteredExpenses 0 june5 ''WEEK'' (expenses (loadExpenses stocked)))"
proof -
  have d: "distinct (map ident (table_rows (db stocked)))"
    by (simp add: stocked_def row_def)
  show ?thesis
    using d filteredExpenses_subsequence
      [of 0 june5 "''WEEK''" "expenses (loadExpenses stocked)" stocked]
    by simp
qed

section \<open>The date helpers\<close>

lemma days_from_civil_day: "days_from_civil y m d = days_from_civil y m 1 + d - 1"
  by (simp add: days_from_civil_def Let_def)

text \<open>
  The week start the code computes. For an instant whose local year is not one of
  0..99 (which \<^verbatim>\<open>new Date(year, month, day)\<close> would read as 1900..1999), getWeekStart
  is local midnight of the Monday on or before the local date: six days back from a
  Sunday, and \<open>getDay - 1\<close> days back from any other day.
\<close>

lemma getWeekStart_monday:
  assumes "getFullYear tz t < 0 \<or> 99 < getFullYear tz t"
  shows "getWeekStart tz (Some t) =
           Some (UTC tz ((Day (LocalTime tz t) -
                          (if getDay tz t = 0 then 6 else getDay tz t - 1)) * msPerDay))"
proof -
  define n where "n = Day (LocalTime tz t)"
  obtain y m d where c: "civil n = (y, m, d)"
    by (cases "civil n") auto
  have md: "1 \<le> m \<and> m \<le> 12 \<and> 1 \<le> d \<and> d \<le> 31"
    by (rule civil_month_day[OF c])
  have fields: "getFullYear tz t = y" "getMonth tz t = m - 1" "getDate tz t = d"
    by (simp_all add: getFullYear_def getMonth_def getDate_def YearFromTime_def
        MonthFromTime_def DateFromTime_def n_def[symmetric] c)
  have "(m - 1) div 12 = 0" "(m - 1) mod 12 = m - 1"
    using md by simp_all
  then have mk: "MakeDay y (m - 1) k = days_from_civil y m 1 + k - 1" for k
    by (simp add: MakeDay_def)
  have "days_from_civil y m 1 = n - d + 1"
    using days_from_civil_civil[OF c] days_from_civil_day[of y m d] by simp
  then have mk': "MakeDay y (m - 1) k = n - d + k" for k
    by (simp add: mk)
  have yr: "(if 0 \<le> y \<and> y \<le> 99 then 1900 + y else y) = y"
    using assms fields by auto
  have "MakeDay y (m - 1) (d - getDay tz t + (if getDay tz t = 0 then - 6 else 1)) =
        n - (if getDay tz t = 0 then 6 else getDay tz t - 1)"
    unfolding mk' by simp
  moreover have "getWeekStart tz (Some t) =
      Some (date_from_fields tz (getFullYear tz t) (getMonth tz t)
             (getDate tz t - getDay tz t + (if getDay tz t = 0 then - 6 else 1)))"
    by (simp only: getWeekStart_def Let_def option.case)
  ultimately show ?thesis
    unfolding fields date_from_fields_def yr n_def[symmetric] by (simp only:)
qed

text \<open>
  Where a date-only string lands. UTC midnight of day \<open>n\<close> is on day \<open>n\<close> in local time
  at offset 0 and east of UTC, and on day \<open>n - 1\<close> west of UTC.
\<close>

lemma local_day_east:
  assumes "0 \<le> tz" and "tz < 1440"
  shows "Day (LocalTime tz (n * msPerDay)) = n"
proof -
  have "n * 86400000 + tz * 60000 = 86400000 * n + tz * 60000"
    by simp
  then show ?thesis
    using assms
    by (simp add: Day_def LocalTime_def msPerDay_def int_div_pos_eq[of _ _ n "tz * 60000"])
qed

lemma local_day_west:
  assumes "- 1440 < tz" and "tz < 0"
  shows "Day (LocalTime tz (n * msPerDay)) = n - 1"
proof -
  have "n * 86400000 + tz * 60000 = 86400000 * (n - 1) + (86400000 + tz * 60000)"
    by simp
  then show ?thesis
    using assms
    by (simp add: Day_def LocalTime_def msPerDay_def
        int_div_pos_eq[of _ _ "n - 1" "86400000 + tz * 60000"])
qed

lemma date_only_parse_midnight:
  assumes "date_only_parse s = Some t"
  shows "t = Day t * msPerDay"
proof -
  from assms obtain n where "t = n * msPerDay"
    by (auto simp: date_only_parse_def Let_def split: if_splits)
  then show ?thesis
    by (simp add: Day_def msPerDay_def)
qed

text \<open>
  isSameMonth, for a date string that parses to day \<open>n\<close>. At offset 0 and east of UTC it
  compares the year and month of day \<open>n\<close> with the local year and month of the instant;
  west of UTC it compares those of day \<open>n - 1\<close>.
\<close>

lemma isSameMonth_east:
  assumes "0 \<le> tz" and "tz < 1440" and "date_only_parse s = Some (n * msPerDay)"
  shows "isSameMonth tz now s \<longleftrightarrow>
           fst (civil n) = getFullYear tz now \<and> fst (snd (civil n)) - 1 = getMonth tz now"
  by (simp add: isSameMonth_def assms(3) getFullYear_def getMonth_def YearFromTime_def
      MonthFromTime_def local_day_east[OF assms(1,2)])

lemma isSameMonth_west:
  assumes "- 1440 < tz" and "tz < 0" and "date_only_parse s = Some (n * msPerDay)"
  shows "isSameMonth tz now s \<longleftrightarrow>
           fst (civil (n - 1)) = getFullYear tz now \<and>
           fst (snd (civil (n - 1))) - 1 = getMonth tz now"
  by (simp add: isSameMonth_def assms(3) getFullYear_def getMonth_def YearFromTime_def
      MonthFromTime_def local_day_west[OF assms(1,2)])

text \<open>
  C2 at a failing input. The instant is 08:00 on Wednesday 5 June 2024 in a zone five
  hours west of UTC. The date string \<^verbatim>\<open>2024-06-03\<close>, the Monday of that week, is read
  as UTC midnight, which is Sunday 2 June in local time, so its week starts on 27 May
  and isSameWeek is false; \<^verbatim>\<open>2024-06-10\<close>, the Monday after, is read as Sunday 9 June
  and isSameWeek is true. At offset 0 the three dates of the scenario classify as the
  specification says.
\<close>

theorem isSameWeek_west_of_utc:
  "toDateString utc_minus_5 (Some june5) = ''Wed Jun 05 2024'' \<and>
   toDateString utc_minus_5 (date_only_parse ''2024-06-03'') = ''Sun Jun 02 2024'' \<and>
   toDateString utc_minus_5 (getWeekStart utc_minus_5 (date_only_parse ''2024-06-03'')) =
     ''Mon May 27 2024'' \<and>
   toDateString utc_minus_5 (getWeekStart utc_minus_5 (Some june5)) = ''Mon Jun 03 2024'' \<and>
   \<not> isSameWeek utc_minus_5 june5 ''2024-06-03'' \<and>
   isSameWeek utc_minus_5 june5 ''2024-06-09'' \<and>
   isSameWeek utc_minus_5 june5 ''2024-06-10'' \<and>
   isSameWeek 0 june5 ''2024-06-03'' \<and>
   isSameWeek 0 june5 ''2024-06-09'' \<and>
   \<not> isSameWeek 0 june5 ''2024-06-10''"
  by (simp add: eval_week)

text \<open>
  C4 at a failing input. At the same instant and offset, the date string \<^verbatim>\<open>2024-06-01\<close>
  is read as 31 May, 19:00 local time, so isSameMonth is false although the year and
  month of the string are those of the instant; and \<^verbatim>\<open>2024-07-01\<close> is read as 30 June,
  so isSameMonth is true although its month is not. At offset 0 both classify by their
  own year and month.
\<close>

theorem isSameMonth_west_of_utc:
  "getFullYear utc_minus_5 june5 = 2024 \<and>
   getMonth utc_minus_5 june5 + 1 = 6 \<and>
   toDateString utc_minus_5 (date_only_parse ''2024-06-01'') = ''Fri May 31 2024'' \<and>
   \<not> isSameMonth utc_minus_5 june5 ''2024-06-01'' \<and>
   isSameMonth utc_minus_5 june5 ''2024-07-01'' \<and>
   isSameMonth 0 june5 ''2024-06-01'' \<and>
   \<not> isSameMonth 0 june5 ''2024-07-01''"
  by (simp add: eval_week)

section \<open>Totals by category and the chart series\<close>

lemma keys_obj_set:
  "map fst (obj_set m k v) =
     (if k = ''__proto__'' \<or> k \<in> set (map fst m) then map fst m else map fst m @ [k])"
  by (simp add: obj_set_def update_keys)

lemma key_set_obj_set:
  "fst ` set (obj_set m k v) = (if k = ''__proto__'' then fst ` set m else insert k (fst ` set m))"
proof -
  have "fst ` set (obj_set m k v) = set (map fst (obj_set m k v))"
    by simp
  also have "\<dots> = (if k = ''__proto__'' then fst ` set m else insert k (fst ` set m))"
    unfolding keys_obj_set by auto
  finally show ?thesis .
qed

text \<open>One step of either loop adds at most the category as a new last key.\<close>

lemma keys_add_to_category:
  "map fst (add_to_category m c a) =
     (if c = ''__proto__'' \<or> c \<in> set (map fst m) then map fst m else map fst m @ [c])"
  by (simp add: add_to_category_def Let_def keys_obj_set key_set_obj_set)

lemma set_first_occurrences: "set (first_occurrences xs) = set xs"
  by (induction xs) auto

lemma keys_foldl_add_to_category:
  "map fst (foldl (\<lambda>m e. add_to_category m (f e) (g e)) m es) =
     map fst m @
     filter (\<lambda>c. c \<notin> set (map fst m))
       (first_occurrences (filter (\<lambda>c. c \<noteq> ''__proto__'') (map f es)))"
proof (induction es arbitrary: m)
  case Nil
  show ?case by simp
next
  case (Cons e es)
  let ?fo = "first_occurrences (filter (\<lambda>c. c \<noteq> ''__proto__'') (map f es))"
  show ?case
  proof (cases "f e = ''__proto__'' \<or> f e \<in> set (map fst m)")
    case True
    then have k: "map fst (add_to_category m (f e) (g e)) = map fst m"
      by (simp add: keys_add_to_category)
    have "filter (\<lambda>c. c \<notin> set (map fst m)) (filter (\<lambda>y. y \<noteq> f e) ?fo) =
          filter (\<lambda>c. c \<notin> set (map fst m)) ?fo" if "f e \<in> set (map fst m)"
      using that by (auto intro: filter_cong)
    with True show ?thesis
      by (auto simp: Cons.IH k)
  next
    case False
    then have k: "map fst (add_to_category m (f e) (g e)) = map fst m @ [f e]"
      by (simp add: keys_add_to_category)
    have "filter (\<lambda>c. c \<notin> set (map fst m @ [f e])) ?fo =
          filter (\<lambda>c. c \<notin> set (map fst m)) (filter (\<lambda>y. y \<noteq> f e) ?fo)"
      by (auto intro: filter_cong)
    with False show ?thesis
      by (simp add: Cons.IH k)
  qed
qed

lemma keys_totalsByCategory:
  "map fst (totalsByCategory es) =
     first_occurrences (filter (\<lambda>c. c \<noteq> ''__proto__'') (map category es))"
  by (simp add: totalsByCategory_def keys_foldl_add_to_category)



lemma set_Object_keys: "set (Object_keys m) = fst ` set m"
  by (auto simp: Object_keys_def)










subsection \<open>Totals over ordinary categories\<close>

lemma is_finite_numberE:
  assumes "is_finite_number v"
  obtains q where "v = Number (Fin q)"
  using assms by (auto simp: is_finite_number_def isFinite_def split: jsval.splits jsnum.splits)

lemma number_of_update:
  "sum_list (map (\<lambda>p. number_of (snd p)) (AList.update c v m)) =
     sum_list (map (\<lambda>p. number_of (snd p)) m) -
     (case map_of m c of Some w \<Rightarrow> number_of w | None \<Rightarrow> 0) + number_of v"
  by (induction m) auto

lemma finite_update:
  "list_all (\<lambda>p. is_finite_number (snd p)) m \<Longrightarrow> is_finite_number v \<Longrightarrow>
   list_all (\<lambda>p. is_finite_number (snd p)) (AList.update c v m)"
  by (induction m) auto

text \<open>
  On an object whose values are finite numbers, and for a category that is not the name
  of a property of the prototype, one step of the loop puts under the category its old
  value, or 0, plus the amount.
\<close>

lemma add_to_category_ordinary:
  assumes "list_all (\<lambda>p. is_finite_number (snd p)) m" and "c \<notin> set object_prototype_names"
  shows "add_to_category m c (Fin a) =
     AList.update c
       (Number (Fin ((case map_of m c of Some w \<Rightarrow> number_of w | None \<Rightarrow> 0) + a))) m"
proof -
  have np: "c \<noteq> ''__proto__''"
    using assms(2) by (auto simp: object_prototype_names_def)
  show ?thesis
  proof (cases "map_of m c")
    case None
    then have "obj_get m c = Undefined"
      using assms(2) by (simp add: obj_get_def)
    then show ?thesis
      using None np
      by (simp add: add_to_category_def Let_def truthy_def obj_set_def obj_get_def
          update_conv' js_plus_def)
  next
    case (Some w)
    then have "(c, w) \<in> set m"
      by (rule map_of_SomeD)
    then have "is_finite_number w"
      using assms(1) by (auto simp: list_all_iff)
    then obtain x where w: "w = Number (Fin x)"
      by (rule is_finite_numberE)
    have g: "obj_get m c = Number (Fin x)"
      using Some w by (simp add: obj_get_def)
    show ?thesis
    proof (cases "x = 0")
      case True
      have "AList.update c (Number (Fin 0)) m = m"
        using Some w True by (intro update_triv) simp
      then show ?thesis
        using Some w True np g
        by (simp add: add_to_category_def Let_def truthy_def num_truthy_def obj_set_def
            js_plus_def number_of_def rational_of_def)
    next
      case False
      then show ?thesis
        using Some w np g
        by (simp add: add_to_category_def Let_def truthy_def num_truthy_def obj_set_def
            js_plus_def number_of_def rational_of_def)
    qed
  qed
qed

lemma foldl_add_to_category_ordinary:
  assumes "list_all (\<lambda>p. is_finite_number (snd p)) m"
    and "list_all (\<lambda>e. category e \<notin> set object_prototype_names) es"
    and "list_all (\<lambda>e. isFinite (amount e)) es"
  shows "list_all (\<lambda>p. is_finite_number (snd p))
           (foldl (\<lambda>m e. add_to_category m (category e) (amount e)) m es) \<and>
         sum_list (map (\<lambda>p. number_of (snd p))
           (foldl (\<lambda>m e. add_to_category m (category e) (amount e)) m es)) =
         sum_list (map (\<lambda>p. number_of (snd p)) m) + sum_list (map (\<lambda>e. rational_of (amount e)) es)"
  using assms
proof (induction es arbitrary: m)
  case Nil
  then show ?case by simp
next
  case (Cons e es)
  from Cons.prems(3) obtain a where a: "amount e = Fin a"
    by (auto simp: isFinite_def split: jsnum.splits)
  let ?x = "case map_of m (category e) of Some w \<Rightarrow> number_of w | None \<Rightarrow> 0"
  let ?m = "AList.update (category e) (Number (Fin (?x + a))) m"
  have step: "add_to_category m (category e) (Fin a) = ?m"
    using Cons.prems(1,2) by (intro add_to_category_ordinary) simp_all
  have fin: "list_all (\<lambda>p. is_finite_number (snd p)) ?m"
    using Cons.prems(1) by (intro finite_update) (simp_all add: is_finite_number_def isFinite_def)
  have tot: "sum_list (map (\<lambda>p. number_of (snd p)) ?m) = sum_list (map (\<lambda>p. number_of (snd p)) m) + a"
    unfolding number_of_update by (simp add: number_of_def rational_of_def)
  from Cons.IH[OF fin] Cons.prems(2,3) show ?case
    by (simp add: step tot a rational_of_def)
qed

lemma totalSpending_finite:
  assumes "list_all (\<lambda>e. isFinite (amount e)) es"
  shows "foldl (\<lambda>sum e. js_add sum (amount e)) (Fin s) es =
         Fin (s + sum_list (map (\<lambda>e. rational_of (amount e)) es))"
  using assms
proof (induction es arbitrary: s)
  case Nil
  then show ?case by simp
next
  case (Cons e es)
  from Cons.prems obtain a where a: "amount e = Fin a"
    by (auto simp: isFinite_def split: jsnum.splits)
  from Cons show ?case
    by (simp add: a rational_of_def)
qed

lemma distinct_first_occurrences: "distinct (first_occurrences xs)"
  by (induction xs) (auto simp: set_first_occurrences)

lemma sum_list_insort_key:
  fixes g :: "'a \<Rightarrow> rat"
  shows "sum_list (map g (insort_key f x xs)) = g x + sum_list (map g xs)"
  by (induction xs) auto

lemma sum_list_sort_key:
  fixes g :: "'a \<Rightarrow> rat"
  shows "sum_list (map g (sort_key f xs)) = sum_list (map g xs)"
  by (induction xs) (auto simp: sum_list_insort_key)

lemma sum_list_filter_split:
  fixes g :: "'a \<Rightarrow> rat"
  shows "sum_list (map g (filter P xs)) + sum_list (map g (filter (\<lambda>x. \<not> P x) xs)) =
         sum_list (map g xs)"
  by (induction xs) auto

lemma sum_Object_keys:
  fixes g :: "string \<Rightarrow> rat"
  shows "sum_list (map g (Object_keys m)) = sum_list (map g (map fst m))"
  unfolding Object_keys_def
  by (simp add: sum_list_sort_key sum_list_filter_split del: map_map)

lemma obj_get_own:
  assumes "distinct (map fst m)" and "(k, v) \<in> set m"
  shows "obj_get m k = v"
  using assms by (simp add: obj_get_def)

text \<open>
  When no category is the name of a property of \<^verbatim>\<open>Object.prototype\<close> and every amount
  is finite, every value of totalsByCategory is a finite number, these numbers add up, in
  exact arithmetic, to the number totalSpending returns, and the keys are the categories
  that some record bears.
\<close>

lemma totalsByCategory_sums_to_total:
  assumes "list_all (\<lambda>e. category e \<notin> set object_prototype_names) es"
    and "list_all (\<lambda>e. isFinite (amount e)) es"
  shows "list_all is_finite_number (Object_values (totalsByCategory es)) \<and>
         totalSpending es =
           Fin (sum_list (map number_of (Object_values (totalsByCategory es)))) \<and>
         set (Object_keys (totalsByCategory es)) = category ` set es"
proof -
  let ?m = "totalsByCategory es"
  have inv: "list_all (\<lambda>p. is_finite_number (snd p)) ?m"
    and tot: "sum_list (map (\<lambda>p. number_of (snd p)) ?m) = sum_list (map (\<lambda>e. rational_of (amount e)) es)"
    using foldl_add_to_category_ordinary[of "[]" es] assms
    by (simp_all add: totalsByCategory_def)
  have d: "distinct (map fst ?m)"
    by (simp add: keys_totalsByCategory distinct_first_occurrences)
  have own: "obj_get ?m (fst p) = snd p" if "p \<in> set ?m" for p
    using obj_get_own[OF d, of "fst p" "snd p"] that by simp
  have vals: "map (obj_get ?m) (map fst ?m) = map snd ?m"
    by (simp add: own)
  have "list_all is_finite_number (Object_values ?m)"
  proof -
    have "is_finite_number (obj_get ?m k)" if "k \<in> set (Object_keys ?m)" for k
    proof -
      from that obtain p where p: "p \<in> set ?m" "k = fst p"
        by (auto simp: set_Object_keys)
      then show ?thesis
        using inv own[OF p(1)] by (auto simp: list_all_iff)
    qed
    then show ?thesis
      by (simp add: Object_values_def list_all_iff)
  qed
  moreover have "totalSpending es = Fin (sum_list (map number_of (Object_values ?m)))"
  proof -
    have "sum_list (map number_of (Object_values ?m)) =
          sum_list (map (\<lambda>k. number_of (obj_get ?m k)) (Object_keys ?m))"
      by (simp add: Object_values_def comp_def)
    also have "\<dots> = sum_list (map (\<lambda>k. number_of (obj_get ?m k)) (map fst ?m))"
      by (rule sum_Object_keys)
    also have "\<dots> = sum_list (map number_of (map (obj_get ?m) (map fst ?m)))"
      by (simp add: comp_def)
    also have "\<dots> = sum_list (map (\<lambda>p. number_of (snd p)) ?m)"
      unfolding vals by (simp add: comp_def)
    finally have "sum_list (map number_of (Object_values ?m)) =
                  sum_list (map (\<lambda>e. rational_of (amount e)) es)"
      using tot by simp
    then show ?thesis
      using totalSpending_finite[OF assms(2), of 0] by (simp add: totalSpending_def)
  qed
  moreover have "set (Object_keys ?m) = category ` set es"
  proof -
    have "category e \<noteq> ''__proto__''" if "e \<in> set es" for e
      using assms(1) that by (auto simp: list_all_iff object_prototype_names_def)
    then have "filter (\<lambda>c. c \<noteq> ''__proto__'') (map category es) = map category es"
      by (simp add: filter_id_conv)
    then have "set (map fst ?m) = set (map category es)"
      by (simp add: keys_totalsByCategory set_first_occurrences del: set_map)
    then show ?thesis
      by (simp add: set_Object_keys)
  qed
  ultimately show ?thesis by blast
qed

text \<open>
  C8 at a failing input. A record of amount 5 under the category \<^verbatim>\<open>__proto__\<close> leaves
  totalsByCategory without any key, while the total is 5: \<^verbatim>\<open>map['__proto__']\<close> reads
  the prototype, which is truthy, and the assignment goes to a setter that ignores it.
  Two records of amounts 5 and 7 under \<^verbatim>\<open>constructor\<close> give the total 12 and, under
  that key, a string instead of a sum: the inherited function is truthy, so the entry is
  never set to 0, and \<^verbatim>\<open>+=\<close> concatenates. For other categories the loop does add up,
  as the last two equations show.
\<close>

theorem totalsByCategory_prototype_names:
  "totalSpending under_proto = Fin 5 \<and>
   totalsByCategory under_proto = [] \<and>
   Object_keys (totalsByCategory under_proto) = [] \<and>
   Object_values (totalsByCategory under_proto) = [] \<and>
   totalSpending under_constructor = Fin 12 \<and>
   Object_keys (totalsByCategory under_constructor) = [''constructor''] \<and>
   Object_values (totalsByCategory under_constructor) = [Text] \<and>
   totalSpending two_categories = Fin 35 \<and>
   totalsByCategory two_categories = [(''Food'', Number (Fin 15)), (''Books'', Number (Fin 20))]"
  by (simp add: under_proto_def under_constructor_def two_categories_def totalSpending_def
      eval_object)

end
